theory Spec2Isabelle
  imports Complex_Main "HOL-Library.AList"
begin

section \<open>Stock demand series and forecast: the wizard \<open>open.stock.series\<close>\<close>

text \<open>
  The development follows \<^verbatim>\<open>stock_qty_forecast/wizard/open_stock_series.py\<close>.
  The wizard reads grouped stock moves, resamples them with pandas onto a regular grid,
  asks one of six statsmodels models for a prediction and assembles one list of records.

  Two libraries are used by the code and are not part of it: pandas (resampling) and
  statsmodels (model fitting and prediction). The meaning pandas gives to a frequency
  alias and the predictors of statsmodels are parameters of the model; what the theorems
  need from them is stated as explicit hypotheses.

  Timestamps are whole days counted from 1970-01-01 (\<open>DATE_TRUNC\<close> and the date fields of
  the wizard only produce midnights), quantities are real numbers (the floats of the
  program, without rounding error).
\<close>

subsection \<open>Data\<close>

type_synonym ts = int

type_synonym series = "(ts \<times> real) list"

datatype interval = day | week | month | quarter | year

fun interval_name :: "interval \<Rightarrow> string" where
  "interval_name day = ''day''"
| "interval_name week = ''week''"
| "interval_name month = ''month''"
| "interval_name quarter = ''quarter''"
| "interval_name year = ''year''"

datatype forecast_method =
  ar_method_name | ma_method_name | arima_method_name
| sarima_method_name | hwes_method_name | ses_method_name

text \<open>The fields of the transient model that the computation reads.\<close>

record wizard =
  date_start :: "ts option"
  date_end :: "ts option"
  predicted_periods :: int
  interval :: interval
  forecast_method :: forecast_method
  lags :: int
  seasons :: int
  p_coefficient :: int
  d_coefficient :: int
  q_coefficient :: int
  seasonal_p_coefficient :: int
  seasonal_d_coefficient :: int
  seasonal_q_coefficient :: int

text \<open>
  A returned dictionary \<open>{"date_datetime": .., "quantity": .., "forecast": True}\<close>; the key
  \<open>forecast\<close> may be absent, which is \<open>None\<close> here.
\<close>

record demand =
  date_datetime :: ts
  quantity :: real
  forecast :: "bool option"

text \<open>A Python value that is either the boolean \<open>False\<close> or a proper value.\<close>

datatype 'a or_false = PyFalse | Value 'a

text \<open>
  What the computation does besides returning: the warnings written to the logger, and
  (as a trace for the proofs) the forecast methods that were called.
\<close>

record effects =
  warnings :: "string list"
  invoked :: "forecast_method list"

subsection \<open>pandas: resampling\<close>

text \<open>
  A frequency of pandas puts every timestamp into a bin; bins are numbered by consecutive
  integers (\<open>ordinal\<close>) and every bin has a timestamp as its label (\<open>label\<close>).
\<close>

record binning =
  ordinal :: "ts \<Rightarrow> int"
  label :: "int \<Rightarrow> ts"

text \<open>Frequency \<open>D\<close>: one bin per calendar day, labelled by the day itself.\<close>

definition pd_day :: binning where
  "pd_day = \<lparr>ordinal = (\<lambda>t. t), label = (\<lambda>k. k)\<rparr>"

text \<open>
  Frequency \<open>W\<close> (weeks ending on Sunday, closed and labelled on the right): the label of a
  day is the first Sunday that is not before it. Day 3 (1970-01-04) is a Sunday.
\<close>

definition pd_week :: binning where
  "pd_week = \<lparr>ordinal = (\<lambda>t. (t + 3) div 7), label = (\<lambda>k. 7 * k + 3)\<rparr>"

text \<open>
  \<open>DataFrame.resample(freq).sum().fillna(0.0)\<close> on a frame indexed by timestamps: one row
  for every bin from the earliest to the latest one that occurs, holding the sum of the
  rows that fall into the bin; a bin without rows sums to zero. The rows need not be
  sorted.
\<close>

definition bin_total :: "binning \<Rightarrow> series \<Rightarrow> int \<Rightarrow> real" where
  "bin_total b rows k = sum_list (map snd (filter (\<lambda>r. ordinal b (fst r) = k) rows))"

definition resample_sum :: "binning \<Rightarrow> series \<Rightarrow> series" where
  "resample_sum b rows =
     (case map (\<lambda>r. ordinal b (fst r)) rows of
        [] \<Rightarrow> []
      | k # ks \<Rightarrow> map (\<lambda>j. (label b j, bin_total b rows j)) [fold min ks k .. fold max ks k])"

text \<open>
  \<open>to_dict().items()\<close>: the pairs of a series as a dictionary. A key that occurs again
  keeps its place and takes the later value.
\<close>

definition to_dict :: "('k \<times> 'v) list \<Rightarrow> ('k \<times> 'v) list" where
  "to_dict xs = fold (\<lambda>(k, v). AList.update k v) xs []"

subsection \<open>statsmodels: the predictors\<close>

text \<open>
  A predictor stands for constructing a model on the data, \<open>fit()\<close> and
  \<open>predict(start, end)\<close>: it returns the predicted series, or the message of the
  exception that one of the three steps raised.
\<close>

type_synonym predictor = "series \<Rightarrow> int \<Rightarrow> int \<Rightarrow> string + series"

record statsmodels =
  AutoReg :: "int \<Rightarrow> predictor"
  ARDL :: "int \<Rightarrow> predictor"
  ARIMA :: "int \<times> int \<times> int \<Rightarrow> predictor"
  SARIMAX :: "int \<times> int \<times> int \<Rightarrow> int \<times> int \<times> int \<times> int \<Rightarrow> predictor"
  ExponentialSmoothing :: predictor
  SimpleExpSmoothing :: predictor

subsection \<open>The forecast methods\<close>

definition warning_message :: "string \<Rightarrow> string" where
  "warning_message er = ''The data is not sufficient to make prediction. Error: '' @ er"

text \<open>
  The common shape of the six methods: the call of the library inside \<open>try\<close>, and in the
  \<open>except\<close> branch a warning and the result \<open>False\<close>.
\<close>

definition try_predict :: "string + series \<Rightarrow> effects \<Rightarrow> series or_false \<times> effects" where
  "try_predict r st =
     (case r of
        Inl er \<Rightarrow> (PyFalse, st\<lparr>warnings := warnings st @ [warning_message er]\<rparr>)
      | Inr prediction \<Rightarrow> (Value prediction, st))"

definition ar_method :: "statsmodels \<Rightarrow> wizard \<Rightarrow> series \<Rightarrow> effects \<Rightarrow> series or_false \<times> effects" where
  "ar_method sm self data st =
     try_predict (AutoReg sm (lags self) data
        (int (length data)) (int (length data) + predicted_periods self - 1)) st"

definition ma_method :: "statsmodels \<Rightarrow> wizard \<Rightarrow> series \<Rightarrow> effects \<Rightarrow> series or_false \<times> effects" where
  "ma_method sm self data st =
     try_predict (ARDL sm (lags self) data
        (int (length data)) (int (length data) + predicted_periods self - 1)) st"

definition arima_method :: "statsmodels \<Rightarrow> wizard \<Rightarrow> series \<Rightarrow> effects \<Rightarrow> series or_false \<times> effects" where
  "arima_method sm self data st =
     try_predict (ARIMA sm (p_coefficient self, d_coefficient self, q_coefficient self) data
        (int (length data)) (int (length data) + predicted_periods self - 1)) st"

definition sarima_method :: "statsmodels \<Rightarrow> wizard \<Rightarrow> series \<Rightarrow> effects \<Rightarrow> series or_false \<times> effects" where
  "sarima_method sm self data st =
     try_predict (SARIMAX sm (p_coefficient self, d_coefficient self, q_coefficient self)
        (seasonal_p_coefficient self, seasonal_d_coefficient self,
         seasonal_q_coefficient self, seasons self) data
        (int (length data)) (int (length data) + predicted_periods self - 1)) st"

definition hwes_method :: "statsmodels \<Rightarrow> wizard \<Rightarrow> series \<Rightarrow> effects \<Rightarrow> series or_false \<times> effects" where
  "hwes_method sm self data st =
     try_predict (ExponentialSmoothing sm data
        (int (length data)) (int (length data) + predicted_periods self - 1)) st"

definition ses_method :: "statsmodels \<Rightarrow> wizard \<Rightarrow> series \<Rightarrow> effects \<Rightarrow> series or_false \<times> effects" where
  "ses_method sm self data st =
     try_predict (SimpleExpSmoothing sm data
        (int (length data)) (int (length data) + predicted_periods self - 1)) st"

text \<open>\<open>getattr(self, self.forecast_method)\<close> and the call of the method found.\<close>

fun getattr :: "forecast_method \<Rightarrow>
    statsmodels \<Rightarrow> wizard \<Rightarrow> series \<Rightarrow> effects \<Rightarrow> series or_false \<times> effects" where
  "getattr ar_method_name = ar_method"
| "getattr ma_method_name = ma_method"
| "getattr arima_method_name = arima_method"
| "getattr sarima_method_name = sarima_method"
| "getattr hwes_method_name = hwes_method"
| "getattr ses_method_name = ses_method"

definition method_to_call :: "statsmodels \<Rightarrow> wizard \<Rightarrow> series \<Rightarrow> effects \<Rightarrow> series or_false \<times> effects" where
  "method_to_call sm self data st =
     getattr (forecast_method self) sm self data
       (st\<lparr>invoked := invoked st @ [forecast_method self]\<rparr>)"

text \<open>
  \<open>_onchange_forecast_method\<close>, with the configuration parameter
  \<open>stock_qty_predicted_periods\<close> as an argument.
\<close>

definition onchange_forecast_method :: "int \<Rightarrow> wizard \<Rightarrow> wizard" where
  "onchange_forecast_method stock_qty_predicted_periods self =
     self\<lparr>predicted_periods :=
       (if forecast_method self \<in> set [hwes_method_name, ses_method_name] then 1
        else stock_qty_predicted_periods)\<rparr>"

subsection \<open>The data series and the forecast\<close>

text \<open>The first letter of the interval is the frequency alias given to pandas.\<close>

definition freq :: "wizard \<Rightarrow> char" where
  "freq self = hd (interval_name (interval self))"

text \<open>
  Step 2 of \<open>_calculate_data\<close> up to the data frame: the two boundary rows. Both are
  added with \<open>append\<close>, and the second test reads \<open>moves[-1]\<close> after the first \<open>append\<close>.
  The list is not empty here.
\<close>

definition with_date_start :: "wizard \<Rightarrow> series \<Rightarrow> series" where
  "with_date_start self moves =
     (case date_start self of
        None \<Rightarrow> moves
      | Some ds \<Rightarrow> if fst (hd moves) > ds then moves @ [(ds, 0)] else moves)"

definition with_date_end :: "wizard \<Rightarrow> series \<Rightarrow> series" where
  "with_date_end self moves =
     (case date_end self of
        None \<Rightarrow> moves
      | Some de \<Rightarrow> if fst (last moves) < de then moves @ [(de, 0)] else moves)"

definition moves_table :: "(char \<Rightarrow> binning) \<Rightarrow> wizard \<Rightarrow> series \<Rightarrow> series" where
  "moves_table to_offset self moves =
     resample_sum (to_offset (freq self)) (with_date_end self (with_date_start self moves))"

text \<open>\<open>value > 0 and round(value, 2) or 0.0\<close>, with rounding of ties to the even neighbour.\<close>

definition rint :: "real \<Rightarrow> int" where
  "rint x =
     (let f = \<lfloor>x\<rfloor>; r = x - of_int f
      in if r < 1 / 2 then f else if 1 / 2 < r then f + 1 else if even f then f else f + 1)"

definition round2 :: "real \<Rightarrow> real" where
  "round2 x = of_int (rint (x * 100)) / 100"

definition forecast_quantity :: "real \<Rightarrow> real" where
  "forecast_quantity v = (if v > 0 then (if round2 v \<noteq> 0 then round2 v else 0) else 0)"

definition res_moves :: "series \<Rightarrow> demand list" where
  "res_moves table =
     map (\<lambda>(key, v). \<lparr>date_datetime = key, quantity = v, forecast = None\<rparr>) (to_dict table)"

definition forecast_moves :: "series \<Rightarrow> demand list" where
  "forecast_moves prediction =
     map (\<lambda>(key, v). \<lparr>date_datetime = key, quantity = forecast_quantity v, forecast = Some True\<rparr>)
       (to_dict prediction)"

text \<open>
  \<open>_calculate_data\<close>, from the rows fetched by the query (\<open>moves\<close>) on.
\<close>

definition calculate_data ::
  "(char \<Rightarrow> binning) \<Rightarrow> statsmodels \<Rightarrow> wizard \<Rightarrow> series \<Rightarrow> effects \<Rightarrow> demand list or_false \<times> effects" where
  "calculate_data to_offset sm self moves st =
     (if moves = [] then (PyFalse, st)
      else
        let table = moves_table to_offset self moves;
            (forecast, st') = method_to_call sm self table st
        in case forecast of
             PyFalse \<Rightarrow> (Value (res_moves table), st')
           | Value prediction \<Rightarrow> (Value (res_moves table @ forecast_moves prediction), st'))"

subsection \<open>The two actions that use the series\<close>

definition NODATATITLE :: string where
  "NODATATITLE = ''Not enough stock operations in the period''"

definition NODATAWARNING :: string where
  "NODATAWARNING = ''No historical data is defined for the specified period''"

text \<open>
  What an action returns: the notification with its title and message, the report on the
  created demand records with the search default of the context, or the download of the
  spreadsheet, given by the rows written to the worksheet (date, quantity and the prefix
  of the cell style).
\<close>

datatype row = Row ts real string

datatype action =
  display_notification string string
| act_window "demand list" string
| act_url "row list"

text \<open>Python's \<open>not moves\<close> for the result of \<open>_calculate_data\<close>.\<close>

fun py_not :: "'a list or_false \<Rightarrow> bool" where
  "py_not PyFalse = True"
| "py_not (Value xs) = (xs = [])"

fun the_moves :: "'a list or_false \<Rightarrow> 'a list" where
  "the_moves PyFalse = []"
| "the_moves (Value xs) = xs"

definition search_default :: "interval \<Rightarrow> string" where
  "search_default iv =
     (if iv = day then ''search_default_day''
      else if iv = week then ''search_default_week''
      else if iv = month then ''search_default_month''
      else if iv = quarter then ''search_default_quarter''
      else ''search_default_year'')"

definition action_calculate ::
  "(char \<Rightarrow> binning) \<Rightarrow> statsmodels \<Rightarrow> wizard \<Rightarrow> series \<Rightarrow> effects \<Rightarrow> action \<times> effects" where
  "action_calculate to_offset sm self fetched st =
     (let (moves, st') = calculate_data to_offset sm self fetched st
      in if py_not moves then (display_notification NODATATITLE NODATAWARNING, st')
         else (act_window (the_moves moves) (search_default (interval self)), st'))"

text \<open>
  \<open>move.get("forecast") and "red_" or ""\<close>, the prefix of the cell style of a row.
\<close>

definition red :: "demand \<Rightarrow> string" where
  "red move = (case forecast move of Some True \<Rightarrow> ''red_'' | _ \<Rightarrow> [])"

text \<open>
  \<open>sorted(moves, key=.., reverse=True)\<close> keeps the order of records with equal keys.
\<close>

definition sorted_reverse :: "demand list \<Rightarrow> demand list" where
  "sorted_reverse moves = rev (sort_key date_datetime (rev moves))"

definition action_export_to_xlsx ::
  "(char \<Rightarrow> binning) \<Rightarrow> statsmodels \<Rightarrow> wizard \<Rightarrow> series \<Rightarrow> effects \<Rightarrow> action \<times> effects" where
  "action_export_to_xlsx to_offset sm self fetched st =
     (let (moves, st') = calculate_data to_offset sm self fetched st
      in if py_not moves then (display_notification NODATATITLE NODATAWARNING, st')
         else (act_url (map (\<lambda>move. Row (date_datetime move) (quantity move) (red move))
                 (sorted_reverse (the_moves moves))), st'))"

subsection \<open>What the theorems assume of the libraries\<close>

text \<open>
  Labels grow with the number of the bin, and the label of a bin lies in the bin.
\<close>

definition regular :: "binning \<Rightarrow> bool" where
  "regular b = ((\<forall>j k. j < k \<longrightarrow> label b j < label b k) \<and> (\<forall>k. ordinal b (label b k) = k))"

text \<open>
  The timestamp of position \<open>i\<close> of a regular series: position 0 is the first row.
\<close>

definition position_date :: "binning \<Rightarrow> series \<Rightarrow> int \<Rightarrow> ts" where
  "position_date b data i = label b (ordinal b (fst (hd data)) + i)"

text \<open>
  \<open>predict(start, end)\<close> returns one point for every position from \<open>start\<close> to \<open>end\<close>, in
  this order, indexed by the timestamps of these positions.
\<close>

definition predicts_range :: "binning \<Rightarrow> predictor \<Rightarrow> bool" where
  "predicts_range b P =
     (\<forall>data s e ys. P data s e = Inr ys \<longrightarrow> map fst ys = map (position_date b data) [s..e])"

definition statsmodels_ranges :: "binning \<Rightarrow> statsmodels \<Rightarrow> bool" where
  "statsmodels_ranges b sm =
     ((\<forall>l. predicts_range b (AutoReg sm l)) \<and> (\<forall>l. predicts_range b (ARDL sm l)) \<and>
      (\<forall>order. predicts_range b (ARIMA sm order)) \<and>
      (\<forall>order seasonal_order. predicts_range b (SARIMAX sm order seasonal_order)) \<and>
      predicts_range b (ExponentialSmoothing sm) \<and> predicts_range b (SimpleExpSmoothing sm))"

text \<open>The call of the library in the \<open>try\<close> block of each method.\<close>

fun try_body :: "forecast_method \<Rightarrow> statsmodels \<Rightarrow> wizard \<Rightarrow> series \<Rightarrow> string + series" where
  "try_body ar_method_name sm self data =
     AutoReg sm (lags self) data
       (int (length data)) (int (length data) + predicted_periods self - 1)"
| "try_body ma_method_name sm self data =
     ARDL sm (lags self) data
       (int (length data)) (int (length data) + predicted_periods self - 1)"
| "try_body arima_method_name sm self data =
     ARIMA sm (p_coefficient self, d_coefficient self, q_coefficient self) data
       (int (length data)) (int (length data) + predicted_periods self - 1)"
| "try_body sarima_method_name sm self data =
     SARIMAX sm (p_coefficient self, d_coefficient self, q_coefficient self)
       (seasonal_p_coefficient self, seasonal_d_coefficient self,
        seasonal_q_coefficient self, seasons self) data
       (int (length data)) (int (length data) + predicted_periods self - 1)"
| "try_body hwes_method_name sm self data =
     ExponentialSmoothing sm data
       (int (length data)) (int (length data) + predicted_periods self - 1)"
| "try_body ses_method_name sm self data =
     SimpleExpSmoothing sm data
       (int (length data)) (int (length data) + predicted_periods self - 1)"

subsection \<open>Stand-ins for the libraries, for concrete runs\<close>

text \<open>
  A predictor that continues the last step of the data, and raises when the data has no
  more than \<open>need\<close> rows or when \<open>end\<close> lies before \<open>start\<close>.
\<close>

definition last_step :: "series \<Rightarrow> real" where
  "last_step data =
     (if length data < 2 then 0 else snd (last data) - snd (last (butlast data)))"

definition continue_series :: "binning \<Rightarrow> nat \<Rightarrow> predictor" where
  "continue_series b need data s e =
     (if length data \<le> need then Inl ''insufficient data''
      else if e < s then Inl ''end before start''
      else Inr (map (\<lambda>i. (position_date b data i,
                  snd (last data) + of_int (i - int (length data) + 1) * last_step data)) [s..e]))"

definition stand_in :: "binning \<Rightarrow> statsmodels" where
  "stand_in b =
     \<lparr>AutoReg = (\<lambda>l. continue_series b (nat l)),
      ARDL = (\<lambda>l. continue_series b (nat l)),
      ARIMA = (\<lambda>(p, d, q). continue_series b (nat (p + d))),
      SARIMAX = (\<lambda>(p, d, q) (sp, sd, sq, s). continue_series b (nat (p + d + s * (sp + sd)))),
      ExponentialSmoothing = continue_series b 0,
      SimpleExpSmoothing = continue_series b 0\<rparr>"

text \<open>
  The aliases of the stand-in for pandas: \<open>w\<close> is the weekly frequency and every other
  letter is read as the daily one, so concrete runs use the intervals day and week only.
\<close>

definition pd_offsets :: "char \<Rightarrow> binning" where
  "pd_offsets c = (if c = CHR ''w'' then pd_week else pd_day)"

definition no_effects :: effects where
  "no_effects = \<lparr>warnings = [], invoked = []\<rparr>"

text \<open>
  A request for the days 2024-01-01 (day 19723) to 2024-01-03 (day 19725), with the
  defaults of the form for the coefficients.
\<close>

definition request :: "forecast_method \<Rightarrow> int \<Rightarrow> wizard" where
  "request m periods =
     \<lparr>date_start = Some 19723, date_end = Some 19725, predicted_periods = periods,
      interval = day, forecast_method = m, lags = 0, seasons = 1,
      p_coefficient = 1, d_coefficient = 1, q_coefficient = 1,
      seasonal_p_coefficient = 1, seasonal_d_coefficient = 1, seasonal_q_coefficient = 1\<rparr>"

section \<open>Properties\<close>

subsection \<open>Auxiliary facts\<close>


lemma fold_min_le: "fold min ks (k::int) \<le> k"
proof (induction ks arbitrary: k)
  case Nil
  then show ?case by simp
next
  case (Cons a ks)
  have "fold min ks (min a k) \<le> min a k" by (rule Cons.IH)
  then show ?case by simp
qed

lemma fold_max_ge: "(k::int) \<le> fold max ks k"
proof (induction ks arbitrary: k)
  case Nil
  then show ?case by simp
next
  case (Cons a ks)
  have "max a k \<le> fold max ks (max a k)" by (rule Cons.IH)
  then show ?case by simp
qed

lemma fold_min_max: "fold min ks (k::int) \<le> fold max ks k"
  using fold_min_le [of ks k] fold_max_ge [of k ks] by simp

lemma resample_sum_Nil: "resample_sum b rows = [] \<longleftrightarrow> rows = []"
proof (cases rows)
  case Nil
  then show ?thesis by (simp add: resample_sum_def)
next
  case (Cons r rs)
  have "fold min (map (\<lambda>r. ordinal b (fst r)) rs) (ordinal b (fst r))
      \<le> fold max (map (\<lambda>r. ordinal b (fst r)) rs) (ordinal b (fst r))"
    by (rule fold_min_max)
  with Cons show ?thesis by (simp add: resample_sum_def)
qed

lemma with_date_start_Nil: "moves \<noteq> [] \<Longrightarrow> with_date_start self moves \<noteq> []"
  by (simp add: with_date_start_def split: option.splits)

lemma with_date_end_Nil: "moves \<noteq> [] \<Longrightarrow> with_date_end self moves \<noteq> []"
  by (simp add: with_date_end_def split: option.splits)

lemma moves_table_Nil: "moves \<noteq> [] \<Longrightarrow> moves_table to_offset self moves \<noteq> []"
  by (simp add: moves_table_def resample_sum_Nil with_date_start_Nil with_date_end_Nil)

lemma fold_update_Nil: "fold (\<lambda>(k, v). AList.update k v) xs acc = [] \<longleftrightarrow> xs = [] \<and> acc = []"
proof (induction xs arbitrary: acc)
  case Nil
  then show ?case by simp
next
  case (Cons x xs)
  obtain k v where x: "x = (k, v)" by (cases x)
  have "AList.update k v acc \<noteq> []" by (cases acc) auto
  with Cons x show ?case by simp
qed

lemma to_dict_Nil: "to_dict xs = [] \<longleftrightarrow> xs = []"
  by (simp add: to_dict_def fold_update_Nil)

lemma res_moves_Nil: "res_moves table = [] \<longleftrightarrow> table = []"
  by (simp add: res_moves_def to_dict_Nil)

lemma calculate_data_Cons:
  "moves \<noteq> [] \<Longrightarrow>
   calculate_data to_offset sm self moves st =
     (case fst (method_to_call sm self (moves_table to_offset self moves) st) of
        PyFalse \<Rightarrow> Value (res_moves (moves_table to_offset self moves))
      | Value prediction \<Rightarrow>
          Value (res_moves (moves_table to_offset self moves) @ forecast_moves prediction),
      snd (method_to_call sm self (moves_table to_offset self moves) st))"
  by (simp add: calculate_data_def Let_def split: prod.splits or_false.splits)

lemma calculate_data_not_falsy:
  "moves \<noteq> [] \<Longrightarrow> \<not> py_not (fst (calculate_data to_offset sm self moves st))"
  by (simp add: calculate_data_Cons res_moves_Nil moves_table_Nil split: or_false.splits)

lemma calculate_data_getattr:
  "moves \<noteq> [] \<Longrightarrow>
   calculate_data to_offset sm self moves st =
     (case getattr (forecast_method self) sm self (moves_table to_offset self moves)
             (st\<lparr>invoked := invoked st @ [forecast_method self]\<rparr>) of
        (PyFalse, st') \<Rightarrow> (Value (res_moves (moves_table to_offset self moves)), st')
      | (Value prediction, st') \<Rightarrow>
          (Value (res_moves (moves_table to_offset self moves) @ forecast_moves prediction), st'))"
  by (simp add: calculate_data_def method_to_call_def Let_def split: prod.splits or_false.splits)

lemma getattr_try_body: "getattr m sm self data st = try_predict (try_body m sm self data) st"
  by (cases m)
     (simp_all add: ar_method_def ma_method_def arima_method_def sarima_method_def
        hwes_method_def ses_method_def)

lemma res_moves_forecast: "r \<in> set (res_moves table) \<Longrightarrow> forecast r = None"
  by (auto simp: res_moves_def)

lemma forecast_moves_forecast: "r \<in> set (forecast_moves prediction) \<Longrightarrow> forecast r = Some True"
  by (auto simp: forecast_moves_def)

lemma try_predict_Inl:
  "try_predict (Inl er) st = (PyFalse, st\<lparr>warnings := warnings st @ [warning_message er]\<rparr>)"
  by (simp add: try_predict_def)

lemma try_predict_Inr: "try_predict (Inr ys) st = (Value ys, st)"
  by (simp add: try_predict_def)

subsection \<open>Concrete runs with the stand-ins\<close>

lemma table_5_0_7:
  "moves_table pd_offsets (request m periods) [(19723, 5), (19725, 7)] =
     [(19723, 5), (19724, 0), (19725, 7)]"
  by (simp add: moves_table_def freq_def request_def pd_offsets_def pd_day_def
      with_date_start_def with_date_end_def resample_sum_def bin_total_def upto_rec1)

lemma continue_5_0_7:
  "continue_series pd_day 0 [(19723, 5), (19724, 0), (19725, 7)] 3 (3 + periods - 1) =
     (if periods < 1 then Inl ''end before start''
      else Inr (map (\<lambda>i. (19723 + i, 7 + of_int (i - 2) * 7)) [3..2 + periods]))"
  by (simp add: continue_series_def last_step_def position_date_def pd_day_def)

lemma run_ses_2:
  "calculate_data pd_offsets (stand_in pd_day) (request ses_method_name 2)
     [(19723, 5), (19725, 7)] no_effects =
   (Value [\<lparr>date_datetime = 19723, quantity = 5, forecast = None\<rparr>,
           \<lparr>date_datetime = 19724, quantity = 0, forecast = None\<rparr>,
           \<lparr>date_datetime = 19725, quantity = 7, forecast = None\<rparr>,
           \<lparr>date_datetime = 19726, quantity = 14, forecast = Some True\<rparr>,
           \<lparr>date_datetime = 19727, quantity = 21, forecast = Some True\<rparr>],
    \<lparr>warnings = [], invoked = [ses_method_name]\<rparr>)"
proof -
  have call: "method_to_call (stand_in pd_day) (request ses_method_name 2)
      [(19723, 5), (19724, 0), (19725, 7)] no_effects =
      (Value [(19726, 14), (19727, 21)], \<lparr>warnings = [], invoked = [ses_method_name]\<rparr>)"
    using continue_5_0_7 [of 2]
    by (simp add: method_to_call_def ses_method_def try_predict_def stand_in_def
        request_def no_effects_def upto_rec1)
  have f: "forecast_moves [(19726, 14), (19727, 21)] =
      [\<lparr>date_datetime = 19726, quantity = 14, forecast = Some True\<rparr>,
       \<lparr>date_datetime = 19727, quantity = 21, forecast = Some True\<rparr>]"
    by (simp add: forecast_moves_def to_dict_def forecast_quantity_def round2_def rint_def)
  have h: "res_moves [(19723, 5), (19724, 0), (19725, 7)] =
      [\<lparr>date_datetime = 19723, quantity = 5, forecast = None\<rparr>,
       \<lparr>date_datetime = 19724, quantity = 0, forecast = None\<rparr>,
       \<lparr>date_datetime = 19725, quantity = 7, forecast = None\<rparr>]"
    by (simp add: res_moves_def to_dict_def)
  show ?thesis
    by (simp add: calculate_data_def table_5_0_7 call f h)
qed

subsection \<open>No data\<close>

text \<open>
  C3. \<open>_calculate_data\<close> returns \<open>False\<close> exactly when the query fetched no rows. In that
  case nothing else happens (the effects are unchanged, the libraries play no part) and
  both actions return the notification "Not enough stock operations in the period". When
  rows were fetched, the method selected by \<open>forecast_method\<close> is run on the resampled table
  and its outcome decides the result: the historical records of the table alone (and a
  warning) when the library call raised, these records followed by the forecast records of
  the prediction otherwise; \<open>action_calculate\<close> then opens the report on these records.
\<close>

theorem no_data_iff_empty:
  "(fst (calculate_data to_offset sm self moves st) = PyFalse \<longleftrightarrow> moves = []) \<and>
   (moves = [] \<longrightarrow>
      calculate_data to_offset sm self moves st = (PyFalse, st) \<and>
      action_calculate to_offset sm self moves st =
        (display_notification NODATATITLE NODATAWARNING, st) \<and>
      action_export_to_xlsx to_offset sm self moves st =
        (display_notification NODATATITLE NODATAWARNING, st)) \<and>
   (moves \<noteq> [] \<longrightarrow>
      calculate_data to_offset sm self moves st =
        (case getattr (forecast_method self) sm self (moves_table to_offset self moves)
                (st\<lparr>invoked := invoked st @ [forecast_method self]\<rparr>) of
           (PyFalse, st') \<Rightarrow> (Value (res_moves (moves_table to_offset self moves)), st')
         | (Value prediction, st') \<Rightarrow>
             (Value (res_moves (moves_table to_offset self moves) @ forecast_moves prediction),
              st')) \<and>
      (\<forall>er. try_body (forecast_method self) sm self (moves_table to_offset self moves) = Inl er \<longrightarrow>
         fst (calculate_data to_offset sm self moves st) =
           Value (res_moves (moves_table to_offset self moves)) \<and>
         warnings (snd (calculate_data to_offset sm self moves st)) =
           warnings st @ [warning_message er]) \<and>
      (\<forall>prediction.
         try_body (forecast_method self) sm self (moves_table to_offset self moves) =
           Inr prediction \<longrightarrow>
         fst (calculate_data to_offset sm self moves st) =
           Value (res_moves (moves_table to_offset self moves) @ forecast_moves prediction) \<and>
         warnings (snd (calculate_data to_offset sm self moves st)) = warnings st) \<and>
      fst (action_calculate to_offset sm self moves st) =
        act_window (the_moves (fst (calculate_data to_offset sm self moves st)))
          (search_default (interval self)))"
proof (cases "moves = []")
  case True
  then show ?thesis
    by (simp add: calculate_data_def action_calculate_def action_export_to_xlsx_def)
next
  case False
  let ?table = "moves_table to_offset self moves"
  let ?calc = "calculate_data to_offset sm self moves st"
  note run = calculate_data_getattr [OF False, of to_offset sm self st]
  have no_false: "fst ?calc \<noteq> PyFalse"
    using False by (simp add: calculate_data_Cons split: or_false.splits)
  have raised: "fst ?calc = Value (res_moves ?table) \<and>
      warnings (snd ?calc) = warnings st @ [warning_message er]"
    if "try_body (forecast_method self) sm self ?table = Inl er" for er
    unfolding run using that by (simp add: getattr_try_body try_predict_Inl)
  have predicted: "fst ?calc = Value (res_moves ?table @ forecast_moves prediction) \<and>
      warnings (snd ?calc) = warnings st"
    if "try_body (forecast_method self) sm self ?table = Inr prediction" for prediction
    unfolding run using that by (simp add: getattr_try_body try_predict_Inr)
  have window: "fst (action_calculate to_offset sm self moves st) =
      act_window (the_moves (fst ?calc)) (search_default (interval self))"
    using calculate_data_not_falsy [OF False, of to_offset sm self st]
    by (simp add: action_calculate_def case_prod_beta)
  from False no_false run raised predicted window show ?thesis by blast
qed

theorem no_data_iff_empty_witness:
  "calculate_data pd_offsets (stand_in pd_day) (request ses_method_name 2) [] no_effects =
     (PyFalse, no_effects) \<and>
   action_calculate pd_offsets (stand_in pd_day) (request ses_method_name 2) [] no_effects =
     (display_notification NODATATITLE NODATAWARNING, no_effects) \<and>
   try_body (forecast_method (request ses_method_name 2)) (stand_in pd_day)
     (request ses_method_name 2)
     (moves_table pd_offsets (request ses_method_name 2) [(19723, 5), (19725, 7)]) =
     Inr [(19726, 14), (19727, 21)] \<and>
   fst (calculate_data pd_offsets (stand_in pd_day) (request ses_method_name 2)
          [(19723, 5), (19725, 7)] no_effects) =
     Value [\<lparr>date_datetime = 19723, quantity = 5, forecast = None\<rparr>,
            \<lparr>date_datetime = 19724, quantity = 0, forecast = None\<rparr>,
            \<lparr>date_datetime = 19725, quantity = 7, forecast = None\<rparr>,
            \<lparr>date_datetime = 19726, quantity = 14, forecast = Some True\<rparr>,
            \<lparr>date_datetime = 19727, quantity = 21, forecast = Some True\<rparr>] \<and>
   warnings (snd (calculate_data pd_offsets (stand_in pd_day) (request ses_method_name 2)
          [(19723, 5), (19725, 7)] no_effects)) = []"
proof -
  let ?self = "request ses_method_name 2"
  let ?moves = "[(19723, 5), (19725, 7)] :: series"
  note empty = no_data_iff_empty [of pd_offsets "stand_in pd_day" ?self "[]" no_effects]
  note rows = no_data_iff_empty [of pd_offsets "stand_in pd_day" ?self ?moves no_effects]
  have m: "forecast_method ?self = ses_method_name" by (simp add: request_def)
  have body: "try_body (forecast_method ?self) (stand_in pd_day) ?self
      (moves_table pd_offsets ?self ?moves) = Inr [(19726, 14), (19727, 21)]"
    unfolding m table_5_0_7 using continue_5_0_7 [of 2]
    by (simp add: stand_in_def request_def upto_rec1)
  have h: "res_moves (moves_table pd_offsets ?self ?moves) =
      [\<lparr>date_datetime = 19723, quantity = 5, forecast = None\<rparr>,
       \<lparr>date_datetime = 19724, quantity = 0, forecast = None\<rparr>,
       \<lparr>date_datetime = 19725, quantity = 7, forecast = None\<rparr>]"
    unfolding table_5_0_7 by (simp add: res_moves_def to_dict_def)
  have f: "forecast_moves [(19726, 14), (19727, 21)] =
      [\<lparr>date_datetime = 19726, quantity = 14, forecast = Some True\<rparr>,
       \<lparr>date_datetime = 19727, quantity = 21, forecast = Some True\<rparr>]"
    by (simp add: forecast_moves_def to_dict_def forecast_quantity_def round2_def rint_def)
  have "?moves \<noteq> []" by simp
  with rows body have "fst (calculate_data pd_offsets (stand_in pd_day) ?self ?moves no_effects) =
      Value (res_moves (moves_table pd_offsets ?self ?moves) @
        forecast_moves [(19726, 14), (19727, 21)])"
    and "warnings (snd (calculate_data pd_offsets (stand_in pd_day) ?self ?moves no_effects)) =
      warnings no_effects"
    by blast+
  with empty body h f show ?thesis by (simp add: no_effects_def)
qed

subsection \<open>A failing model\<close>

text \<open>
  C4. When the library call of a forecast method raises, the method returns \<open>False\<close> and
  the only effect is one warning that carries the message of the exception; nothing is
  raised to the caller. \<open>_calculate_data\<close> then returns the historical records alone, none
  of them with the key \<open>forecast\<close>.
\<close>

theorem exception_gives_history_only:
  assumes "try_body m sm self data = Inl er"
  shows "getattr m sm self data st =
           (PyFalse, st\<lparr>warnings := warnings st @ [warning_message er]\<rparr>) \<and>
         (\<forall>to_offset moves.
            moves \<noteq> [] \<and> forecast_method self = m \<and> moves_table to_offset self moves = data \<longrightarrow>
            calculate_data to_offset sm self moves st =
              (Value (res_moves data),
               st\<lparr>invoked := invoked st @ [m],
                  warnings := warnings st @ [warning_message er]\<rparr>) \<and>
            (\<forall>r \<in> set (res_moves data). forecast r = None))"
  using assms
  by (simp add: getattr_try_body try_predict_Inl calculate_data_Cons method_to_call_def
      res_moves_forecast)

theorem exception_gives_history_only_witness:
  "try_body arima_method_name (stand_in pd_day)
     ((request arima_method_name 3)\<lparr>p_coefficient := 5\<rparr>) [(19723, 5), (19724, 7)] =
     Inl ''insufficient data'' \<and>
   calculate_data pd_offsets (stand_in pd_day)
     ((request arima_method_name 3)\<lparr>p_coefficient := 5, date_end := Some 19724\<rparr>)
     [(19723, 5), (19724, 7)] no_effects =
     (Value [\<lparr>date_datetime = 19723, quantity = 5, forecast = None\<rparr>,
             \<lparr>date_datetime = 19724, quantity = 7, forecast = None\<rparr>],
      \<lparr>warnings = [''The data is not sufficient to make prediction. Error: insufficient data''],
       invoked = [arima_method_name]\<rparr>)"
proof -
  let ?self = "(request arima_method_name 3)\<lparr>p_coefficient := 5, date_end := Some 19724\<rparr>"
  have table: "moves_table pd_offsets ?self [(19723, 5), (19724, 7)] = [(19723, 5), (19724, 7)]"
    by (simp add: moves_table_def freq_def request_def pd_offsets_def pd_day_def
        with_date_start_def with_date_end_def resample_sum_def bin_total_def upto_rec1)
  have raised: "try_body arima_method_name (stand_in pd_day) ?self [(19723, 5), (19724, 7)] =
      Inl ''insufficient data''"
    by (simp add: stand_in_def continue_series_def request_def)
  have hist: "res_moves [(19723, 5), (19724, 7)] =
      [\<lparr>date_datetime = 19723, quantity = 5, forecast = None\<rparr>,
       \<lparr>date_datetime = 19724, quantity = 7, forecast = None\<rparr>]"
    by (simp add: res_moves_def to_dict_def)
  show ?thesis
    using exception_gives_history_only [OF raised, of no_effects] table hist
    by (simp add: no_effects_def warning_message_def request_def stand_in_def continue_series_def)
qed

subsection \<open>The forecast flag\<close>

text \<open>
  C9. The returned list is the historical records followed by the forecast records. A
  historical record has no key \<open>forecast\<close> at all, a forecast record has
  \<open>forecast = True\<close>; the export tells them apart by \<open>move.get("forecast")\<close>, which gives the
  style prefix \<open>red_\<close> for forecast records only.
\<close>

theorem history_has_no_forecast_key:
  assumes "moves \<noteq> []"
  shows "\<exists>history forecasts.
           fst (calculate_data to_offset sm self moves st) = Value (history @ forecasts) \<and>
           history = res_moves (moves_table to_offset self moves) \<and>
           (\<forall>r \<in> set history. forecast r = None \<and> red r = []) \<and>
           (\<forall>r \<in> set forecasts. forecast r = Some True \<and> red r = ''red_'')"
proof (cases "fst (method_to_call sm self (moves_table to_offset self moves) st)")
  case PyFalse
  with assms show ?thesis
    by (auto simp: calculate_data_Cons red_def dest: res_moves_forecast)
next
  case (Value prediction)
  with assms have "fst (calculate_data to_offset sm self moves st) =
      Value (res_moves (moves_table to_offset self moves) @ forecast_moves prediction)"
    by (simp add: calculate_data_Cons)
  moreover have "\<forall>r \<in> set (res_moves (moves_table to_offset self moves)). forecast r = None \<and> red r = []"
    by (auto simp: red_def dest: res_moves_forecast)
  moreover have "\<forall>r \<in> set (forecast_moves prediction). forecast r = Some True \<and> red r = ''red_''"
    by (auto simp: red_def dest: forecast_moves_forecast)
  ultimately show ?thesis by blast
qed

theorem history_has_no_forecast_key_witness:
  "[(19723, 5), (19725, 7)] \<noteq> ([] :: series) \<and>
   (\<exists>history forecasts.
      fst (calculate_data pd_offsets (stand_in pd_day) (request ses_method_name 2)
             [(19723, 5), (19725, 7)] no_effects) = Value (history @ forecasts) \<and>
      history = res_moves (moves_table pd_offsets (request ses_method_name 2)
                  [(19723, 5), (19725, 7)]) \<and>
      (\<forall>r \<in> set history. forecast r = None \<and> red r = []) \<and>
      (\<forall>r \<in> set forecasts. forecast r = Some True \<and> red r = ''red_''))"
proof -
  have h: "[(19723, 5), (19725, 7)] \<noteq> ([] :: series)" by simp
  show ?thesis
    using h history_has_no_forecast_key [OF h, of pd_offsets "stand_in pd_day"
        "request ses_method_name 2" no_effects]
    by blast
qed

subsection \<open>A fetch with rows never looks like no data\<close>

text \<open>
  C10. When the query fetched rows, \<open>_calculate_data\<close> returns a list that is not empty and
  starts with a historical record. So the test \<open>not moves\<close> of the two actions succeeds
  exactly when nothing was fetched, and only then the notification is returned.
\<close>

theorem nonempty_fetch_gives_nonempty_list:
  "(moves \<noteq> [] \<longrightarrow>
      (\<exists>records. fst (calculate_data to_offset sm self moves st) = Value records \<and>
         records \<noteq> [] \<and> forecast (hd records) = None)) \<and>
   (py_not (fst (calculate_data to_offset sm self moves st)) \<longleftrightarrow> moves = []) \<and>
   (fst (action_calculate to_offset sm self moves st) =
      display_notification NODATATITLE NODATAWARNING \<longleftrightarrow> moves = []) \<and>
   (fst (action_export_to_xlsx to_offset sm self moves st) =
      display_notification NODATATITLE NODATAWARNING \<longleftrightarrow> moves = [])"
proof (cases "moves = []")
  case True
  then show ?thesis
    by (simp add: calculate_data_def action_calculate_def action_export_to_xlsx_def)
next
  case False
  let ?table = "moves_table to_offset self moves"
  have ne: "res_moves ?table \<noteq> []"
    using False by (simp add: res_moves_Nil moves_table_Nil)
  then have hd: "forecast (hd (res_moves ?table)) = None"
    by (rule res_moves_forecast [OF hd_in_set])
  have nf: "\<not> py_not (fst (calculate_data to_offset sm self moves st))"
    using False by (rule calculate_data_not_falsy)
  have "\<exists>records. fst (calculate_data to_offset sm self moves st) = Value records \<and>
         records \<noteq> [] \<and> forecast (hd records) = None"
    using False ne hd by (simp add: calculate_data_Cons split: or_false.splits)
  moreover have "fst (action_calculate to_offset sm self moves st) \<noteq>
      display_notification NODATATITLE NODATAWARNING"
    using nf by (simp add: action_calculate_def case_prod_beta)
  moreover have "fst (action_export_to_xlsx to_offset sm self moves st) \<noteq>
      display_notification NODATATITLE NODATAWARNING"
    using nf by (simp add: action_export_to_xlsx_def case_prod_beta)
  ultimately show ?thesis using False nf by simp
qed

theorem nonempty_fetch_gives_nonempty_list_witness:
  "(\<exists>records. fst (calculate_data pd_offsets (stand_in pd_day) (request ses_method_name 2)
        [(19723, 5), (19725, 7)] no_effects) = Value records \<and>
      records \<noteq> [] \<and> forecast (hd records) = None) \<and>
   \<not> py_not (fst (calculate_data pd_offsets (stand_in pd_day) (request ses_method_name 2)
        [(19723, 5), (19725, 7)] no_effects)) \<and>
   py_not (fst (calculate_data pd_offsets (stand_in pd_day) (request ses_method_name 2)
        [] no_effects)) \<and>
   fst (action_calculate pd_offsets (stand_in pd_day) (request ses_method_name 2)
        [] no_effects) = display_notification NODATATITLE NODATAWARNING \<and>
   fst (action_calculate pd_offsets (stand_in pd_day) (request ses_method_name 2)
        [(19723, 5), (19725, 7)] no_effects) \<noteq> display_notification NODATATITLE NODATAWARNING"
  using nonempty_fetch_gives_nonempty_list [of "[(19723, 5), (19725, 7)]" pd_offsets
      "stand_in pd_day" "request ses_method_name 2" no_effects]
    nonempty_fetch_gives_nonempty_list [of "[]" pd_offsets
      "stand_in pd_day" "request ses_method_name 2" no_effects]
  by simp

subsection \<open>Forecast quantities\<close>

lemma set_fold_update:
  "set (fold (\<lambda>(k, v). AList.update k v) xs acc) \<subseteq> set xs \<union> set acc"
proof (induction xs arbitrary: acc)
  case Nil
  then show ?case by simp
next
  case (Cons x xs)
  obtain k v where x: "x = (k, v)" by (cases x)
  have "set (AList.update k v acc) \<subseteq> insert (k, v) (set acc)"
    by (induction acc) auto
  with Cons [of "AList.update k v acc"] x show ?case by auto
qed

lemma set_to_dict: "set (to_dict xs) \<subseteq> set xs"
  using set_fold_update [of xs "[]"] by (simp add: to_dict_def)

lemma rint_nonneg: "0 \<le> x \<Longrightarrow> 0 \<le> rint x"
  by (simp add: rint_def Let_def)

lemma forecast_quantity_eq: "forecast_quantity v = (if v \<le> 0 then 0 else round2 v)"
  by (simp add: forecast_quantity_def)

lemma forecast_quantity_nonneg: "0 \<le> forecast_quantity v"
  by (simp add: forecast_quantity_eq round2_def rint_nonneg)

lemma forecast_quantity_decimals: "\<exists>n::int. forecast_quantity v = of_int n / 100"
proof (cases "v \<le> 0")
  case True
  then have "forecast_quantity v = of_int 0 / 100" by (simp add: forecast_quantity_eq)
  then show ?thesis by blast
next
  case False
  then have "forecast_quantity v = of_int (rint (v * 100)) / 100"
    by (simp add: forecast_quantity_eq round2_def)
  then show ?thesis by blast
qed

lemma forecast_moves_origin:
  assumes "r \<in> set (forecast_moves prediction)"
  shows "\<exists>v. (date_datetime r, v) \<in> set prediction \<and> quantity r = forecast_quantity v"
proof -
  from assms obtain k v where kv: "(k, v) \<in> set (to_dict prediction)"
    and r: "r = \<lparr>date_datetime = k, quantity = forecast_quantity v, forecast = Some True\<rparr>"
    by (auto simp: forecast_moves_def)
  from kv set_to_dict have "(k, v) \<in> set prediction" by blast
  with r show ?thesis by auto
qed

lemma run_ma_fraction:
  "calculate_data pd_offsets (stand_in pd_day) (request ma_method_name 2)
     [(19723, 1.004), (19725, 2.129)] no_effects =
   (Value [\<lparr>date_datetime = 19723, quantity = 1.004, forecast = None\<rparr>,
           \<lparr>date_datetime = 19724, quantity = 0, forecast = None\<rparr>,
           \<lparr>date_datetime = 19725, quantity = 2.129, forecast = None\<rparr>,
           \<lparr>date_datetime = 19726, quantity = 4.26, forecast = Some True\<rparr>,
           \<lparr>date_datetime = 19727, quantity = 6.39, forecast = Some True\<rparr>],
    \<lparr>warnings = [], invoked = [ma_method_name]\<rparr>)"
proof -
  have table: "moves_table pd_offsets (request ma_method_name 2) [(19723, 1.004), (19725, 2.129)] =
      [(19723, 1.004), (19724, 0), (19725, 2.129)]"
    by (simp add: moves_table_def freq_def request_def pd_offsets_def pd_day_def
        with_date_start_def with_date_end_def resample_sum_def bin_total_def upto_rec1)
  have call: "method_to_call (stand_in pd_day) (request ma_method_name 2)
      [(19723, 1.004), (19724, 0), (19725, 2.129)] no_effects =
      (Value [(19726, 4.258), (19727, 6.387)], \<lparr>warnings = [], invoked = [ma_method_name]\<rparr>)"
    by (simp add: method_to_call_def ma_method_def try_predict_def stand_in_def
        request_def no_effects_def upto_rec1 continue_series_def last_step_def
        position_date_def pd_day_def)
  have f: "forecast_moves [(19726, 4.258), (19727, 6.387)] =
      [\<lparr>date_datetime = 19726, quantity = 4.26, forecast = Some True\<rparr>,
       \<lparr>date_datetime = 19727, quantity = 6.39, forecast = Some True\<rparr>]"
    by (simp add: forecast_moves_def to_dict_def forecast_quantity_def round2_def rint_def)
  have h: "res_moves [(19723, 1.004), (19724, 0), (19725, 2.129)] =
      [\<lparr>date_datetime = 19723, quantity = 1.004, forecast = None\<rparr>,
       \<lparr>date_datetime = 19724, quantity = 0, forecast = None\<rparr>,
       \<lparr>date_datetime = 19725, quantity = 2.129, forecast = None\<rparr>]"
    by (simp add: res_moves_def to_dict_def)
  show ?thesis
    using f h unfolding calculate_data_def Let_def table call by simp
qed

lemma run_ar_falling:
  "calculate_data pd_offsets (stand_in pd_day) (request ar_method_name 2)
     [(19723, 7), (19724, 3)] no_effects =
   (Value [\<lparr>date_datetime = 19723, quantity = 7, forecast = None\<rparr>,
           \<lparr>date_datetime = 19724, quantity = 3, forecast = None\<rparr>,
           \<lparr>date_datetime = 19725, quantity = 0, forecast = None\<rparr>,
           \<lparr>date_datetime = 19726, quantity = 0, forecast = Some True\<rparr>,
           \<lparr>date_datetime = 19727, quantity = 0, forecast = Some True\<rparr>],
    \<lparr>warnings = [], invoked = [ar_method_name]\<rparr>)"
proof -
  have table: "moves_table pd_offsets (request ar_method_name 2) [(19723, 7), (19724, 3)] =
      [(19723, 7), (19724, 3), (19725, 0)]"
    by (simp add: moves_table_def freq_def request_def pd_offsets_def pd_day_def
        with_date_start_def with_date_end_def resample_sum_def bin_total_def upto_rec1)
  have call: "method_to_call (stand_in pd_day) (request ar_method_name 2)
      [(19723, 7), (19724, 3), (19725, 0)] no_effects =
      (Value [(19726, - 3), (19727, - 6)], \<lparr>warnings = [], invoked = [ar_method_name]\<rparr>)"
    by (simp add: method_to_call_def ar_method_def try_predict_def stand_in_def
        request_def no_effects_def upto_rec1 continue_series_def last_step_def
        position_date_def pd_day_def)
  have f: "forecast_moves [(19726, - 3), (19727, - 6)] =
      [\<lparr>date_datetime = 19726, quantity = 0, forecast = Some True\<rparr>,
       \<lparr>date_datetime = 19727, quantity = 0, forecast = Some True\<rparr>]"
    by (simp add: forecast_moves_def to_dict_def forecast_quantity_def)
  have h: "res_moves [(19723, 7), (19724, 3), (19725, 0)] =
      [\<lparr>date_datetime = 19723, quantity = 7, forecast = None\<rparr>,
       \<lparr>date_datetime = 19724, quantity = 3, forecast = None\<rparr>,
       \<lparr>date_datetime = 19725, quantity = 0, forecast = None\<rparr>]"
    by (simp add: res_moves_def to_dict_def)
  show ?thesis
    using f h unfolding calculate_data_def Let_def table call by simp
qed

text \<open>
  C5. A record of the returned list that is flagged as forecast has a quantity that is not
  negative and is a whole number of hundredths; it is 0 where the predicted value is not
  positive and the predicted value rounded to two decimals otherwise. (Quantities are real
  numbers here: the rounding is exact.)
\<close>

theorem forecast_quantity_clamped_rounded:
  assumes "fst (calculate_data to_offset sm self moves st) = Value records"
    and "r \<in> set records" and "forecast r = Some True"
  shows "0 \<le> quantity r \<and> (\<exists>n::int. quantity r = of_int n / 100) \<and>
         (\<exists>prediction v.
            try_body (forecast_method self) sm self (moves_table to_offset self moves) =
              Inr prediction \<and>
            (date_datetime r, v) \<in> set prediction \<and>
            quantity r = (if v \<le> 0 then 0 else round2 v))"
proof -
  let ?table = "moves_table to_offset self moves"
  from assms(1) have ne: "moves \<noteq> []"
    by (auto simp: calculate_data_def)
  show ?thesis
  proof (cases "try_body (forecast_method self) sm self ?table")
    case (Inl er)
    then have "fst (calculate_data to_offset sm self moves st) = Value (res_moves ?table)"
      using ne by (simp add: calculate_data_Cons method_to_call_def getattr_try_body
          try_predict_Inl)
    with assms(1) have "records = res_moves ?table" by simp
    with assms(2) have "forecast r = None" by (simp add: res_moves_forecast)
    with assms(3) show ?thesis by simp
  next
    case (Inr prediction)
    then have "fst (calculate_data to_offset sm self moves st) =
        Value (res_moves ?table @ forecast_moves prediction)"
      using ne by (simp add: calculate_data_Cons method_to_call_def getattr_try_body
          try_predict_Inr)
    with assms(1) have "records = res_moves ?table @ forecast_moves prediction" by simp
    with assms(2) have "r \<in> set (res_moves ?table) \<or> r \<in> set (forecast_moves prediction)"
      by simp
    moreover have "r \<notin> set (res_moves ?table)"
      using assms(3) res_moves_forecast [of r ?table] by auto
    ultimately have "r \<in> set (forecast_moves prediction)" by simp
    then obtain v where v: "(date_datetime r, v) \<in> set prediction"
      and q: "quantity r = forecast_quantity v"
      using forecast_moves_origin by blast
    have "0 \<le> quantity r" by (simp add: q forecast_quantity_nonneg)
    moreover have "\<exists>n::int. quantity r = of_int n / 100"
      unfolding q by (rule forecast_quantity_decimals)
    moreover have "quantity r = (if v \<le> 0 then 0 else round2 v)"
      by (simp add: q forecast_quantity_eq)
    ultimately show ?thesis using Inr v by blast
  qed
qed

theorem forecast_quantity_clamped_rounded_witness:
  "(let r = \<lparr>date_datetime = 19726, quantity = 4.26, forecast = Some True\<rparr>
    in 0 \<le> quantity r \<and> (\<exists>n::int. quantity r = of_int n / 100) \<and>
       (\<exists>prediction v.
          try_body ma_method_name (stand_in pd_day) (request ma_method_name 2)
            (moves_table pd_offsets (request ma_method_name 2) [(19723, 1.004), (19725, 2.129)]) =
            Inr prediction \<and>
          (19726, v) \<in> set prediction \<and> quantity r = (if v \<le> 0 then 0 else round2 v))) \<and>
   (let r = \<lparr>date_datetime = 19727, quantity = 0, forecast = Some True\<rparr>
    in \<exists>prediction v.
          try_body ar_method_name (stand_in pd_day) (request ar_method_name 2)
            (moves_table pd_offsets (request ar_method_name 2) [(19723, 7), (19724, 3)]) =
            Inr prediction \<and>
          (19727, v) \<in> set prediction \<and> quantity r = (if v \<le> 0 then 0 else round2 v))"
proof -
  let ?r = "\<lparr>date_datetime = 19726, quantity = 4.26, forecast = Some True\<rparr>"
  let ?q = "\<lparr>date_datetime = 19727, quantity = 0, forecast = Some True\<rparr>"
  have a: "fst (calculate_data pd_offsets (stand_in pd_day) (request ma_method_name 2)
      [(19723, 1.004), (19725, 2.129)] no_effects) = Value
        [\<lparr>date_datetime = 19723, quantity = 1.004, forecast = None\<rparr>,
         \<lparr>date_datetime = 19724, quantity = 0, forecast = None\<rparr>,
         \<lparr>date_datetime = 19725, quantity = 2.129, forecast = None\<rparr>,
         ?r, \<lparr>date_datetime = 19727, quantity = 6.39, forecast = Some True\<rparr>]"
    unfolding run_ma_fraction by simp
  have b: "fst (calculate_data pd_offsets (stand_in pd_day) (request ar_method_name 2)
      [(19723, 7), (19724, 3)] no_effects) = Value
        [\<lparr>date_datetime = 19723, quantity = 7, forecast = None\<rparr>,
         \<lparr>date_datetime = 19724, quantity = 3, forecast = None\<rparr>,
         \<lparr>date_datetime = 19725, quantity = 0, forecast = None\<rparr>,
         \<lparr>date_datetime = 19726, quantity = 0, forecast = Some True\<rparr>, ?q]"
    unfolding run_ar_falling by simp
  have "forecast_method (request ma_method_name 2) = ma_method_name"
    and "forecast_method (request ar_method_name 2) = ar_method_name"
    by (simp_all add: request_def)
  then show ?thesis
    using forecast_quantity_clamped_rounded [OF a, of ?r]
      forecast_quantity_clamped_rounded [OF b, of ?q]
    by (simp add: Let_def)
qed

subsection \<open>The number of predicted periods\<close>

lemma try_body_range:
  assumes "statsmodels_ranges b sm" and "try_body m sm self data = Inr prediction"
  shows "map fst prediction = map (position_date b data)
           [int (length data) .. int (length data) + predicted_periods self - 1]"
proof -
  from assms(1) have
    a: "\<And>l. predicts_range b (AutoReg sm l)" and
    d: "\<And>l. predicts_range b (ARDL sm l)" and
    i: "\<And>order. predicts_range b (ARIMA sm order)" and
    s: "\<And>order so. predicts_range b (SARIMAX sm order so)" and
    h: "predicts_range b (ExponentialSmoothing sm)" and
    e: "predicts_range b (SimpleExpSmoothing sm)"
    unfolding statsmodels_ranges_def by blast+
  show ?thesis
  proof (cases m)
    case ar_method_name
    with assms(2) a [of "lags self"] show ?thesis
      unfolding predicts_range_def by simp
  next
    case ma_method_name
    with assms(2) d [of "lags self"] show ?thesis
      unfolding predicts_range_def by simp
  next
    case arima_method_name
    with assms(2) i [of "(p_coefficient self, d_coefficient self, q_coefficient self)"]
    show ?thesis unfolding predicts_range_def by simp
  next
    case sarima_method_name
    with assms(2) s [of "(p_coefficient self, d_coefficient self, q_coefficient self)"
        "(seasonal_p_coefficient self, seasonal_d_coefficient self,
          seasonal_q_coefficient self, seasons self)"]
    show ?thesis unfolding predicts_range_def by simp
  next
    case hwes_method_name
    with assms(2) h show ?thesis unfolding predicts_range_def by simp
  next
    case ses_method_name
    with assms(2) e show ?thesis unfolding predicts_range_def by simp
  qed
qed

lemma getattr_Value:
  "getattr m sm self data st = (Value prediction, st') \<Longrightarrow>
   try_body m sm self data = Inr prediction"
  by (simp add: getattr_try_body try_predict_def split: sum.splits)

lemma try_body_length:
  assumes "statsmodels_ranges b sm" and "try_body m sm self data = Inr prediction"
  shows "length prediction = nat (predicted_periods self)"
proof -
  have "length (map fst prediction) = length (map (position_date b data)
           [int (length data) .. int (length data) + predicted_periods self - 1])"
    using try_body_range [OF assms] by simp
  then show ?thesis by simp
qed

lemma continue_series_range: "predicts_range b (continue_series b need)"
  by (auto simp: predicts_range_def continue_series_def comp_def split: if_splits)

lemma stand_in_ranges: "statsmodels_ranges b (stand_in b)"
  by (simp add: statsmodels_ranges_def stand_in_def continue_series_range split: prod.splits)

lemma hwes_5_0_7:
  "hwes_method (stand_in pd_day) (request hwes_method_name 3)
     [(19723, 5), (19724, 0), (19725, 7)] no_effects =
   (Value [(19726, 14), (19727, 21), (19728, 28)], no_effects)"
  using continue_5_0_7 [of 3]
  by (simp add: hwes_method_def try_predict_def stand_in_def request_def upto_rec1)

lemma ses_5_0_7:
  "ses_method (stand_in pd_day) (request ses_method_name 2)
     [(19723, 5), (19724, 0), (19725, 7)] no_effects =
   (Value [(19726, 14), (19727, 21)], no_effects)"
  using continue_5_0_7 [of 2]
  by (simp add: ses_method_def try_predict_def stand_in_def request_def upto_rec1)

text \<open>
  C1, as the code has it. \<open>_hwes_method\<close> and \<open>_ses_method\<close> ask the library for the
  positions \<open>len(data)\<close> to \<open>len(data) + predicted_periods - 1\<close> like the other methods, so
  (with a library that returns one point per position asked for) they return
  \<open>predicted_periods\<close> points. They return exactly one point when \<open>predicted_periods\<close> is
  1, which is what \<open>_onchange_forecast_method\<close> sets on the form when one of the two
  methods is selected.
\<close>

theorem hwes_ses_follow_predicted_periods:
  assumes "statsmodels_ranges b sm"
    and "m = hwes_method_name \<or> m = ses_method_name"
    and "getattr m sm self data st = (Value prediction, st')"
  shows "length prediction = nat (predicted_periods self) \<and>
         (predicted_periods self = 1 \<longrightarrow> length prediction = 1) \<and>
         (\<forall>c p q. forecast_method self = m \<and>
            getattr m sm (onchange_forecast_method c self) data st = (Value p, q) \<longrightarrow>
            length p = 1)"
proof -
  have len: "length prediction = nat (predicted_periods self)"
    using assms(1) getattr_Value [OF assms(3)] by (rule try_body_length)
  have "length p = 1"
    if "forecast_method self = m"
      and "getattr m sm (onchange_forecast_method c self) data st = (Value p, q)" for c p q
  proof -
    have "predicted_periods (onchange_forecast_method c self) = 1"
      using assms(2) that(1) by (auto simp: onchange_forecast_method_def)
    with try_body_length [OF assms(1) getattr_Value [OF that(2)]] show ?thesis by simp
  qed
  with len show ?thesis by auto
qed

text \<open>
  The claim as stated (one point whatever \<open>predicted_periods\<close> is) fails: with
  \<open>predicted_periods = 3\<close> the method \<open>_hwes_method\<close> returns three points.
\<close>

theorem hwes_three_periods_counterexample:
  "statsmodels_ranges pd_day (stand_in pd_day) \<and>
   predicted_periods (request hwes_method_name 3) = 3 \<and>
   fst (hwes_method (stand_in pd_day) (request hwes_method_name 3)
          [(19723, 5), (19724, 0), (19725, 7)] no_effects) =
     Value [(19726, 14), (19727, 21), (19728, 28)] \<and>
   length [(19726 :: ts, 14), (19727, 21), (19728, 28 :: real)] \<noteq> 1"
  using hwes_5_0_7 by (simp add: stand_in_ranges request_def)

theorem hwes_ses_follow_predicted_periods_witness:
  "statsmodels_ranges pd_day (stand_in pd_day) \<and>
   getattr hwes_method_name (stand_in pd_day) (request hwes_method_name 3)
     [(19723, 5), (19724, 0), (19725, 7)] no_effects =
     (Value [(19726, 14), (19727, 21), (19728, 28)], no_effects) \<and>
   length [(19726 :: ts, 14), (19727, 21), (19728, 28 :: real)] =
     nat (predicted_periods (request hwes_method_name 3))"
proof -
  have g: "getattr hwes_method_name (stand_in pd_day) (request hwes_method_name 3)
     [(19723, 5), (19724, 0), (19725, 7)] no_effects =
     (Value [(19726, 14), (19727, 21), (19728, 28)], no_effects)"
    by (simp add: hwes_5_0_7)
  show ?thesis
    using hwes_ses_follow_predicted_periods [OF stand_in_ranges _ g] g stand_in_ranges
    by simp
qed

subsection \<open>The resampled table\<close>

lemma fold_min_in: "fold min ks (k::int) \<in> set (k # ks)"
proof (induction ks arbitrary: k)
  case Nil
  then show ?case by simp
next
  case (Cons a ks)
  have "fold min ks (min a k) \<in> set (min a k # ks)" by (rule Cons.IH)
  moreover have "min a k = a \<or> min a k = k" by linarith
  ultimately have "fold min ks (min a k) \<in> set (k # a # ks)" by auto
  then show ?case by simp
qed

lemma fold_max_in: "fold max ks (k::int) \<in> set (k # ks)"
proof (induction ks arbitrary: k)
  case Nil
  then show ?case by simp
next
  case (Cons a ks)
  have "fold max ks (max a k) \<in> set (max a k # ks)" by (rule Cons.IH)
  moreover have "max a k = a \<or> max a k = k" by linarith
  ultimately have "fold max ks (max a k) \<in> set (k # a # ks)" by auto
  then show ?case by simp
qed

lemma fold_min_lower: "x \<in> set (k # ks) \<Longrightarrow> fold min ks (k::int) \<le> x"
proof (induction ks arbitrary: k)
  case Nil
  then show ?case by simp
next
  case (Cons a ks)
  show ?case
  proof (cases "x \<in> set ks")
    case True
    then have "fold min ks (min a k) \<le> x" by (intro Cons.IH) simp
    then show ?thesis by simp
  next
    case False
    with Cons.prems have "min a k \<le> x" by auto
    moreover have "fold min ks (min a k) \<le> min a k" by (rule fold_min_le)
    ultimately have "fold min ks (min a k) \<le> x" by (rule order_trans [rotated])
    then show ?thesis by simp
  qed
qed

lemma fold_max_upper: "x \<in> set (k # ks) \<Longrightarrow> x \<le> fold max ks (k::int)"
proof (induction ks arbitrary: k)
  case Nil
  then show ?case by simp
next
  case (Cons a ks)
  show ?case
  proof (cases "x \<in> set ks")
    case True
    then have "x \<le> fold max ks (max a k)" by (intro Cons.IH) simp
    then show ?thesis by simp
  next
    case False
    with Cons.prems have "x \<le> max a k" by auto
    moreover have "max a k \<le> fold max ks (max a k)" by (rule fold_max_ge)
    ultimately have "x \<le> fold max ks (max a k)" by (rule order_trans)
    then show ?thesis by simp
  qed
qed

lemma resample_sum_bins:
  assumes "rows \<noteq> []"
  shows "\<exists>lo hi. lo \<le> hi \<and>
           resample_sum b rows = map (\<lambda>j. (label b j, bin_total b rows j)) [lo..hi] \<and>
           (\<exists>r \<in> set rows. ordinal b (fst r) = lo) \<and>
           (\<exists>r \<in> set rows. ordinal b (fst r) = hi) \<and>
           (\<forall>r \<in> set rows. lo \<le> ordinal b (fst r) \<and> ordinal b (fst r) \<le> hi)"
proof -
  from assms obtain r rs where rows: "rows = r # rs" by (cases rows) auto
  let ?k = "ordinal b (fst r)" and ?ks = "map (\<lambda>r. ordinal b (fst r)) rs"
  let ?lo = "fold min ?ks ?k" and ?hi = "fold max ?ks ?k"
  have set: "set (?k # ?ks) = (\<lambda>r. ordinal b (fst r)) ` set rows"
    by (simp add: rows)
  have "?lo \<le> ?hi" by (rule fold_min_max)
  moreover have "resample_sum b rows = map (\<lambda>j. (label b j, bin_total b rows j)) [?lo..?hi]"
    by (simp add: resample_sum_def rows)
  moreover have "\<exists>r \<in> set rows. ordinal b (fst r) = ?lo"
    using fold_min_in [of ?ks ?k] unfolding set by force
  moreover have "\<exists>r \<in> set rows. ordinal b (fst r) = ?hi"
    using fold_max_in [of ?ks ?k] unfolding set by force
  moreover have "\<forall>r \<in> set rows. ?lo \<le> ordinal b (fst r) \<and> ordinal b (fst r) \<le> ?hi"
  proof
    fix x assume "x \<in> set rows"
    then have "ordinal b (fst x) \<in> set (?k # ?ks)" unfolding set by blast
    then show "?lo \<le> ordinal b (fst x) \<and> ordinal b (fst x) \<le> ?hi"
      using fold_min_lower fold_max_upper by blast
  qed
  ultimately show ?thesis by blast
qed

lemma bin_total_append_zero: "bin_total b (rows @ [(d, 0)]) k = bin_total b rows k"
  by (simp add: bin_total_def)

lemma bin_total_boundaries:
  "bin_total b (with_date_end self (with_date_start self moves)) k = bin_total b moves k"
  by (simp add: with_date_end_def with_date_start_def bin_total_append_zero
      split: option.splits)

lemma bin_total_empty: "\<forall>r \<in> set rows. ordinal b (fst r) \<noteq> k \<Longrightarrow> bin_total b rows k = 0"
proof -
  assume "\<forall>r \<in> set rows. ordinal b (fst r) \<noteq> k"
  then have "filter (\<lambda>r. ordinal b (fst r) = k) rows = []"
    by (simp add: filter_empty_conv)
  then show ?thesis by (simp add: bin_total_def)
qed

lemma moves_table_bins:
  assumes "moves \<noteq> []"
  shows "\<exists>lo hi. lo \<le> hi \<and>
           moves_table to_offset self moves =
             map (\<lambda>j. (label (to_offset (freq self)) j,
                        bin_total (to_offset (freq self)) moves j)) [lo..hi]"
proof -
  let ?rows = "with_date_end self (with_date_start self moves)"
  have "?rows \<noteq> []" using assms by (simp add: with_date_start_Nil with_date_end_Nil)
  from resample_sum_bins [OF this, of "to_offset (freq self)"] obtain lo hi
    where "lo \<le> hi" and "resample_sum (to_offset (freq self)) ?rows =
      map (\<lambda>j. (label (to_offset (freq self)) j, bin_total (to_offset (freq self)) ?rows j)) [lo..hi]"
    by blast
  then show ?thesis
    by (auto simp: moves_table_def bin_total_boundaries)
qed

lemma regular_sorted: "regular b \<Longrightarrow> sorted_wrt (<) (map (label b) [lo..hi])"
proof -
  assume "regular b"
  then have mono: "\<And>j k. j < k \<Longrightarrow> label b j < label b k" by (simp add: regular_def)
  have "sorted_wrt (<) [lo..hi]" by simp
  then have "sorted_wrt (\<lambda>j k. label b j < label b k) [lo..hi]"
    by (rule sorted_wrt_mono_rel [rotated]) (simp add: mono)
  then show ?thesis by (simp add: sorted_wrt_map)
qed

lemma to_dict_append:
  "distinct (map fst (acc @ xs)) \<Longrightarrow> fold (\<lambda>(k, v). AList.update k v) xs acc = acc @ xs"
proof (induction xs arbitrary: acc)
  case Nil
  then show ?case by simp
next
  case (Cons x xs)
  obtain k v where x: "x = (k, v)" by (cases x)
  from Cons.prems x have "k \<notin> fst ` set acc" by auto
  then have u: "AList.update k v acc = acc @ [(k, v)]"
    by (induction acc) auto
  from Cons.prems x have "distinct (map fst ((acc @ [(k, v)]) @ xs))" by simp
  from Cons.IH [OF this] u x show ?case by simp
qed

lemma to_dict_distinct: "distinct (map fst xs) \<Longrightarrow> to_dict xs = xs"
  using to_dict_append [of "[]" xs] by (simp add: to_dict_def)

lemma to_dict_sorted: "sorted_wrt (<) (map fst xs) \<Longrightarrow> to_dict (xs :: series) = xs"
  by (rule to_dict_distinct) (simp add: strict_sorted_iff)

lemma regular_pd_day: "regular pd_day"
  by (simp add: regular_def pd_day_def)

lemma regular_pd_week: "regular pd_week"
  by (simp add: regular_def pd_week_def)

lemma moves_table_sorted:
  assumes "regular (to_offset (freq self))" and "moves \<noteq> []"
  shows "sorted_wrt (<) (map fst (moves_table to_offset self moves))"
proof -
  from moves_table_bins [OF assms(2), of to_offset self] obtain lo hi
    where "moves_table to_offset self moves =
      map (\<lambda>j. (label (to_offset (freq self)) j,
                 bin_total (to_offset (freq self)) moves j)) [lo..hi]"
    by blast
  then have "map fst (moves_table to_offset self moves) =
      map (label (to_offset (freq self))) [lo..hi]"
    by (simp add: comp_def)
  with regular_sorted [OF assms(1)] show ?thesis by simp
qed

lemma res_moves_sorted:
  "sorted_wrt (<) (map fst table) \<Longrightarrow>
   res_moves table = map (\<lambda>(t, v). \<lparr>date_datetime = t, quantity = v, forecast = None\<rparr>) table"
  by (simp add: res_moves_def to_dict_sorted)

lemma day_table_5_0_7:
  assumes "to_offset CHR ''d'' = pd_day"
  shows "moves_table to_offset (request m periods) [(19723, 5), (19725, 7)] =
     [(19723, 5), (19724, 0), (19725, 7)]"
  using assms
  by (simp add: moves_table_def freq_def request_def pd_day_def
      with_date_start_def with_date_end_def resample_sum_def bin_total_def upto_rec1)

text \<open>
  C6. When rows were fetched (and the labels of the frequency grow with the bins), the
  resampled table has one row for each bin from a first to a last one, without gap or
  repetition, and its timestamps are strictly ascending; the quantity of a bin is the sum
  of the fetched quantities in it, which is 0.0 for a bin without a fetched row. The
  historical records are the rows of this table in the same order. For the daily
  frequency, the rows (2024-01-01, 5) and (2024-01-03, 7) with \<open>date_start\<close> 2024-01-01 and
  \<open>date_end\<close> 2024-01-03 give (01-01, 5), (01-02, 0), (01-03, 7); the days are 19723 to
  19725.
\<close>

theorem normalized_series_contiguous:
  "(\<forall>to_offset self moves. regular (to_offset (freq self)) \<and> moves \<noteq> [] \<longrightarrow>
      (\<exists>lo hi. lo \<le> hi \<and>
         moves_table to_offset self moves =
           map (\<lambda>j. (label (to_offset (freq self)) j,
                      bin_total (to_offset (freq self)) moves j)) [lo..hi]) \<and>
      sorted_wrt (<) (map fst (moves_table to_offset self moves)) \<and>
      (\<forall>(t, v) \<in> set (moves_table to_offset self moves).
         (\<forall>r \<in> set moves. ordinal (to_offset (freq self)) (fst r) \<noteq>
                             ordinal (to_offset (freq self)) t) \<longrightarrow> v = 0) \<and>
      res_moves (moves_table to_offset self moves) =
        map (\<lambda>(t, v). \<lparr>date_datetime = t, quantity = v, forecast = None\<rparr>)
          (moves_table to_offset self moves)) \<and>
   (\<forall>to_offset m periods. to_offset CHR ''d'' = pd_day \<longrightarrow>
      moves_table to_offset (request m periods) [(19723, 5), (19725, 7)] =
        [(19723, 5), (19724, 0), (19725, 7)])"
proof -
  have general: "(\<exists>lo hi. lo \<le> hi \<and>
         moves_table to_offset self moves =
           map (\<lambda>j. (label (to_offset (freq self)) j,
                      bin_total (to_offset (freq self)) moves j)) [lo..hi]) \<and>
      sorted_wrt (<) (map fst (moves_table to_offset self moves)) \<and>
      (\<forall>(t, v) \<in> set (moves_table to_offset self moves).
         (\<forall>r \<in> set moves. ordinal (to_offset (freq self)) (fst r) \<noteq>
                             ordinal (to_offset (freq self)) t) \<longrightarrow> v = 0) \<and>
      res_moves (moves_table to_offset self moves) =
        map (\<lambda>(t, v). \<lparr>date_datetime = t, quantity = v, forecast = None\<rparr>)
          (moves_table to_offset self moves)"
    if reg: "regular (to_offset (freq self))" and ne: "moves \<noteq> []"
    for to_offset self and moves :: series
  proof -
    let ?b = "to_offset (freq self)" and ?table = "moves_table to_offset self moves"
    from moves_table_bins [OF ne, of to_offset self] obtain lo hi
      where le: "lo \<le> hi"
        and table: "?table = map (\<lambda>j. (label ?b j, bin_total ?b moves j)) [lo..hi]"
      by blast
    have sorted: "sorted_wrt (<) (map fst ?table)"
      using reg ne by (rule moves_table_sorted)
    have zero: "v = 0"
      if "(t, v) \<in> set ?table"
        and "\<forall>r \<in> set moves. ordinal ?b (fst r) \<noteq> ordinal ?b t" for t v
    proof -
      from that(1) table obtain j where t: "t = label ?b j" and v: "v = bin_total ?b moves j"
        by auto
      from reg t have "ordinal ?b t = j" by (simp add: regular_def)
      with that(2) have "\<forall>r \<in> set moves. ordinal ?b (fst r) \<noteq> j" by simp
      then show ?thesis unfolding v by (rule bin_total_empty)
    qed
    from le table sorted zero res_moves_sorted [OF sorted] show ?thesis by blast
  qed
  then show ?thesis using day_table_5_0_7 by blast
qed

theorem normalized_series_contiguous_witness:
  "regular (pd_offsets (freq (request ses_method_name 1))) \<and>
   [(19723, 5), (19725, 7)] \<noteq> ([] :: series) \<and>
   moves_table pd_offsets (request ses_method_name 1) [(19723, 5), (19725, 7)] =
     [(19723, 5), (19724, 0), (19725, 7)] \<and>
   sorted_wrt (<) (map fst (moves_table pd_offsets (request ses_method_name 1)
     [(19723, 5), (19725, 7)])) \<and>
   res_moves (moves_table pd_offsets (request ses_method_name 1) [(19723, 5), (19725, 7)]) =
     [\<lparr>date_datetime = 19723, quantity = 5, forecast = None\<rparr>,
      \<lparr>date_datetime = 19724, quantity = 0, forecast = None\<rparr>,
      \<lparr>date_datetime = 19725, quantity = 7, forecast = None\<rparr>] \<and>
   regular (pd_offsets (freq ((request ses_method_name 1)\<lparr>interval := week\<rparr>))) \<and>
   moves_table pd_offsets ((request ses_method_name 1)\<lparr>interval := week\<rparr>)
     [(19723, 5), (19737, 7)] = [(19729, 5), (19736, 0), (19743, 7)] \<and>
   sorted_wrt (<) (map fst (moves_table pd_offsets
     ((request ses_method_name 1)\<lparr>interval := week\<rparr>) [(19723, 5), (19737, 7)]))"
proof -
  let ?weekly = "(request ses_method_name 1)\<lparr>interval := week\<rparr>"
  have d: "pd_offsets CHR ''d'' = pd_day" by (simp add: pd_offsets_def)
  have f: "freq (request ses_method_name 1) = CHR ''d''" by (simp add: freq_def request_def)
  have r: "regular (pd_offsets (freq (request ses_method_name 1)))"
    by (simp add: f d regular_pd_day)
  have n: "[(19723, 5), (19725, 7)] \<noteq> ([] :: series)" by simp
  have r': "regular (pd_offsets (freq ?weekly))"
    by (simp add: freq_def request_def pd_offsets_def regular_pd_week)
  have n': "[(19723, 5), (19737, 7)] \<noteq> ([] :: series)" by simp
  have w: "moves_table pd_offsets ?weekly [(19723, 5), (19737, 7)] =
      [(19729, 5), (19736, 0), (19743, 7)]"
    by (simp add: moves_table_def freq_def request_def pd_offsets_def pd_week_def
        with_date_start_def with_date_end_def resample_sum_def bin_total_def upto_rec1)
  from normalized_series_contiguous have
    a: "moves_table pd_offsets (request ses_method_name 1) [(19723, 5), (19725, 7)] =
        [(19723, 5), (19724, 0), (19725, 7)]"
    using d by blast
  from normalized_series_contiguous r n have
    "sorted_wrt (<) (map fst (moves_table pd_offsets (request ses_method_name 1)
       [(19723, 5), (19725, 7)]))"
    and "res_moves (moves_table pd_offsets (request ses_method_name 1) [(19723, 5), (19725, 7)]) =
        map (\<lambda>(t, v). \<lparr>date_datetime = t, quantity = v, forecast = None\<rparr>)
          (moves_table pd_offsets (request ses_method_name 1) [(19723, 5), (19725, 7)])"
    by blast+
  moreover from normalized_series_contiguous r' n' have
    "sorted_wrt (<) (map fst (moves_table pd_offsets ?weekly [(19723, 5), (19737, 7)]))"
    by blast
  ultimately show ?thesis using r n a r' w by simp
qed

subsection \<open>The boundary rows\<close>

lemma resample_sum_covers:
  assumes "r \<in> set rows"
  shows "(label b (ordinal b (fst r)), bin_total b rows (ordinal b (fst r)))
           \<in> set (resample_sum b rows)"
proof -
  from assms have "rows \<noteq> []" by auto
  from resample_sum_bins [OF this, of b] obtain lo hi
    where table: "resample_sum b rows = map (\<lambda>j. (label b j, bin_total b rows j)) [lo..hi]"
      and bounds: "\<forall>r \<in> set rows. lo \<le> ordinal b (fst r) \<and> ordinal b (fst r) \<le> hi"
    by blast
  from bounds assms have "ordinal b (fst r) \<in> set [lo..hi]" by simp
  then show ?thesis unfolding table by force
qed

lemma moves_table_covers:
  assumes "(t, q) \<in> set (with_date_end self (with_date_start self moves))"
  shows "(label (to_offset (freq self)) (ordinal (to_offset (freq self)) t),
          bin_total (to_offset (freq self)) moves (ordinal (to_offset (freq self)) t))
           \<in> set (moves_table to_offset self moves)"
  using resample_sum_covers [OF assms, of "to_offset (freq self)"]
  by (simp add: moves_table_def bin_total_boundaries)

lemma moves_table_range:
  assumes "moves \<noteq> []"
  shows "\<exists>lo hi. moves_table to_offset self moves =
             map (\<lambda>j. (label (to_offset (freq self)) j,
                        bin_total (to_offset (freq self)) moves j)) [lo..hi] \<and>
           (\<exists>r \<in> set (with_date_end self (with_date_start self moves)).
              ordinal (to_offset (freq self)) (fst r) = lo) \<and>
           (\<exists>r \<in> set (with_date_end self (with_date_start self moves)).
              ordinal (to_offset (freq self)) (fst r) = hi) \<and>
           (\<forall>r \<in> set (with_date_end self (with_date_start self moves)).
              lo \<le> ordinal (to_offset (freq self)) (fst r) \<and>
              ordinal (to_offset (freq self)) (fst r) \<le> hi)"
proof -
  let ?rows = "with_date_end self (with_date_start self moves)"
  let ?b = "to_offset (freq self)"
  have "?rows \<noteq> []" using assms by (simp add: with_date_start_Nil with_date_end_Nil)
  from resample_sum_bins [OF this, of ?b] obtain lo hi
    where "resample_sum ?b ?rows = map (\<lambda>j. (label ?b j, bin_total ?b ?rows j)) [lo..hi]"
      and "\<exists>r \<in> set ?rows. ordinal ?b (fst r) = lo"
      and "\<exists>r \<in> set ?rows. ordinal ?b (fst r) = hi"
      and "\<forall>r \<in> set ?rows. lo \<le> ordinal ?b (fst r) \<and> ordinal ?b (fst r) \<le> hi"
    by blast
  then show ?thesis
    unfolding moves_table_def bin_total_boundaries by blast
qed

text \<open>
  C7, as the code has it. When the first fetched row is later than \<open>date_start\<close>, a row
  with quantity zero at \<open>date_start\<close> is appended at the end of the list (it is not put in
  front). When the last fetched row is earlier than \<open>date_end\<close> (and \<open>date_start\<close>, if set,
  is before \<open>date_end\<close>), a row with quantity zero at \<open>date_end\<close> is appended. The rows are
  added before resampling: the table has a row for the bin of \<open>date_start\<close> and one for the
  bin of \<open>date_end\<close> in these cases, and it runs from the first to the last bin that occurs
  among the fetched rows and the added ones. Resampling sums the rows of a bin: the table
  has every timestamp once, with the totals of the fetched rows alone.
\<close>

theorem boundary_rows_appended:
  assumes "moves \<noteq> []"
  shows "(\<forall>ds. date_start self = Some ds \<and> ds < fst (hd moves) \<longrightarrow>
            with_date_start self moves = moves @ [(ds, 0)] \<and>
            (label (to_offset (freq self)) (ordinal (to_offset (freq self)) ds),
             bin_total (to_offset (freq self)) moves (ordinal (to_offset (freq self)) ds))
              \<in> set (moves_table to_offset self moves)) \<and>
         (\<forall>de. date_end self = Some de \<and> fst (last moves) < de \<and>
               (\<forall>ds. date_start self = Some ds \<longrightarrow> ds < de) \<longrightarrow>
            with_date_end self (with_date_start self moves) =
              with_date_start self moves @ [(de, 0)] \<and>
            (label (to_offset (freq self)) (ordinal (to_offset (freq self)) de),
             bin_total (to_offset (freq self)) moves (ordinal (to_offset (freq self)) de))
              \<in> set (moves_table to_offset self moves)) \<and>
         (\<exists>lo hi. moves_table to_offset self moves =
             map (\<lambda>j. (label (to_offset (freq self)) j,
                        bin_total (to_offset (freq self)) moves j)) [lo..hi] \<and>
           (\<exists>r \<in> set (with_date_end self (with_date_start self moves)).
              ordinal (to_offset (freq self)) (fst r) = lo) \<and>
           (\<exists>r \<in> set (with_date_end self (with_date_start self moves)).
              ordinal (to_offset (freq self)) (fst r) = hi) \<and>
           (\<forall>r \<in> set (with_date_end self (with_date_start self moves)).
              lo \<le> ordinal (to_offset (freq self)) (fst r) \<and>
              ordinal (to_offset (freq self)) (fst r) \<le> hi)) \<and>
         (regular (to_offset (freq self)) \<longrightarrow>
            distinct (map fst (moves_table to_offset self moves)))"
proof -
  let ?b = "to_offset (freq self)"
  let ?rows = "with_date_end self (with_date_start self moves)"
  have start: "with_date_start self moves = moves @ [(ds, 0)] \<and>
      (label ?b (ordinal ?b ds), bin_total ?b moves (ordinal ?b ds))
        \<in> set (moves_table to_offset self moves)"
    if "date_start self = Some ds" and "ds < fst (hd moves)" for ds
  proof -
    from that have a: "with_date_start self moves = moves @ [(ds, 0)]"
      by (simp add: with_date_start_def)
    then have "(ds, 0) \<in> set ?rows"
      by (simp add: with_date_end_def split: option.splits)
    from a moves_table_covers [OF this] show ?thesis by simp
  qed
  have finish: "?rows = with_date_start self moves @ [(de, 0)] \<and>
      (label ?b (ordinal ?b de), bin_total ?b moves (ordinal ?b de))
        \<in> set (moves_table to_offset self moves)"
    if "date_end self = Some de" and "fst (last moves) < de"
      and "\<forall>ds. date_start self = Some ds \<longrightarrow> ds < de" for de
  proof -
    from that assms have a: "?rows = with_date_start self moves @ [(de, 0)]"
      by (auto simp: with_date_end_def with_date_start_def split: option.splits)
    then have "(de, 0) \<in> set ?rows" by simp
    from a moves_table_covers [OF this] show ?thesis by simp
  qed
  have "distinct (map fst (moves_table to_offset self moves))" if "regular ?b"
    using moves_table_sorted [of to_offset self moves] that assms
    by (simp add: strict_sorted_iff)
  with start finish moves_table_range [OF assms, of to_offset self] show ?thesis
    by blast
qed

text \<open>
  The claim as stated (the row at \<open>date_start\<close> is prepended) fails: for one fetched row on
  2024-01-02 and \<open>date_start\<close> 2024-01-01 the list becomes the fetched row followed by the
  row at \<open>date_start\<close>.
\<close>

theorem date_start_row_not_prepended_counterexample:
  "date_start (request ses_method_name 1) = Some 19723 \<and>
   19723 < fst (hd [(19724 :: ts, 7 :: real)]) \<and>
   with_date_start (request ses_method_name 1) [(19724, 7)] = [(19724, 7), (19723, 0)] \<and>
   with_date_start (request ses_method_name 1) [(19724, 7)] \<noteq> [(19723, 0), (19724, 7)]"
  by (simp add: with_date_start_def request_def)

theorem boundary_rows_appended_witness:
  "[(19724, 7)] \<noteq> ([] :: series) \<and>
   with_date_start (request ses_method_name 1) [(19724, 7)] = [(19724, 7), (19723, 0)] \<and>
   with_date_end (request ses_method_name 1) (with_date_start (request ses_method_name 1)
     [(19724, 7)]) = [(19724, 7), (19723, 0), (19725, 0)] \<and>
   (19723, 0) \<in> set (moves_table pd_offsets (request ses_method_name 1) [(19724, 7)]) \<and>
   (19725, 0) \<in> set (moves_table pd_offsets (request ses_method_name 1) [(19724, 7)]) \<and>
   distinct (map fst (moves_table pd_offsets (request ses_method_name 1) [(19724, 7)])) \<and>
   moves_table pd_offsets (request ses_method_name 1) [(19724, 7)] =
     [(19723, 0), (19724, 7), (19725, 0)] \<and>
   with_date_end (request ses_method_name 1) (with_date_start (request ses_method_name 1)
     [(19724, 7), (19725, 3)]) = [(19724, 7), (19725, 3), (19723, 0), (19725, 0)] \<and>
   distinct (map fst (moves_table pd_offsets (request ses_method_name 1)
     [(19724, 7), (19725, 3)])) \<and>
   moves_table pd_offsets (request ses_method_name 1) [(19724, 7), (19725, 3)] =
     [(19723, 0), (19724, 7), (19725, 3)]"
proof -
  let ?self = "request ses_method_name 1"
  have n: "[(19724, 7)] \<noteq> ([] :: series)" by simp
  have n': "[(19724, 7), (19725, 3)] \<noteq> ([] :: series)" by simp
  have b: "pd_offsets (freq ?self) = pd_day"
    by (simp add: freq_def request_def pd_offsets_def)
  have r: "regular (pd_offsets (freq ?self))"
    by (simp add: b regular_pd_day)
  have s: "date_start ?self = Some 19723" and e: "date_end ?self = Some 19725"
    by (simp_all add: request_def)
  have l': "with_date_end ?self (with_date_start ?self [(19724, 7), (19725, 3)]) =
      [(19724, 7), (19725, 3), (19723, 0), (19725, 0)]"
    by (simp add: with_date_start_def with_date_end_def request_def)
  have t': "moves_table pd_offsets ?self [(19724, 7), (19725, 3)] =
     [(19723, 0), (19724, 7), (19725, 3)]"
    by (simp add: moves_table_def freq_def request_def pd_offsets_def pd_day_def
      with_date_start_def with_date_end_def resample_sum_def bin_total_def upto_rec1)
  have t: "moves_table pd_offsets ?self [(19724, 7)] = [(19723, 0), (19724, 7), (19725, 0)]"
    by (simp add: moves_table_def freq_def request_def pd_offsets_def pd_day_def
      with_date_start_def with_date_end_def resample_sum_def bin_total_def upto_rec1)
  note app = boundary_rows_appended [OF n, of ?self pd_offsets]
  have a: "with_date_start ?self [(19724, 7)] = [(19724, 7)] @ [(19723, 0)] \<and>
      (label (pd_offsets (freq ?self)) (ordinal (pd_offsets (freq ?self)) 19723),
       bin_total (pd_offsets (freq ?self)) [(19724, 7)] (ordinal (pd_offsets (freq ?self)) 19723))
        \<in> set (moves_table pd_offsets ?self [(19724, 7)])"
    using app [THEN conjunct1, rule_format, of 19723] s by simp
  have z: "with_date_end ?self (with_date_start ?self [(19724, 7)]) =
        with_date_start ?self [(19724, 7)] @ [(19725, 0)] \<and>
      (label (pd_offsets (freq ?self)) (ordinal (pd_offsets (freq ?self)) 19725),
       bin_total (pd_offsets (freq ?self)) [(19724, 7)] (ordinal (pd_offsets (freq ?self)) 19725))
        \<in> set (moves_table pd_offsets ?self [(19724, 7)])"
    using app [THEN conjunct2, THEN conjunct1, rule_format, of 19725] s e by simp
  have c: "distinct (map fst (moves_table pd_offsets ?self [(19724, 7)]))"
    using app [THEN conjunct2, THEN conjunct2, THEN conjunct2] r by simp
  have c': "distinct (map fst (moves_table pd_offsets ?self [(19724, 7), (19725, 3)]))"
    using boundary_rows_appended [OF n', of ?self pd_offsets,
        THEN conjunct2, THEN conjunct2, THEN conjunct2] r by simp
  from a have a1: "with_date_start ?self [(19724, 7)] = [(19724, 7), (19723, 0)]"
    and a2: "(19723, 0) \<in> set (moves_table pd_offsets ?self [(19724, 7)])"
    by (simp_all add: b pd_day_def bin_total_def)
  from z a1 have z1: "with_date_end ?self (with_date_start ?self [(19724, 7)]) =
      [(19724, 7), (19723, 0), (19725, 0)]"
    and z2: "(19725, 0) \<in> set (moves_table pd_offsets ?self [(19724, 7)])"
    by (simp_all add: b pd_day_def bin_total_def)
  from n a1 z1 a2 z2 c t l' c' t' show ?thesis by (intro conjI)
qed

subsection \<open>Positions of the forecast\<close>

lemma map_shift_upto: "map (\<lambda>i. f (c + i)) [a..b] = map f [c + a..c + b]"
proof (rule nth_equalityI)
  show "length (map (\<lambda>i. f (c + i)) [a..b]) = length (map f [c + a..c + b])" by simp
next
  fix n assume "n < length (map (\<lambda>i. f (c + i)) [a..b])"
  then have n: "a + int n \<le> b" by simp
  then have "c + a + int n \<le> c + b" by simp
  with n show "map (\<lambda>i. f (c + i)) [a..b] ! n = map f [c + a..c + b] ! n"
    by (simp add: add.assoc)
qed

lemma table_positions:
  assumes "regular b" and "lo \<le> hi" and "data = map (\<lambda>j. (label b j, g j)) [lo..hi]"
  shows "map (position_date b data) [int (length data) .. int (length data) + pp - 1] =
           map (label b) [hi + 1 .. hi + pp]"
    and "ordinal b (fst (last data)) = hi"
proof -
  from assms(1) have inv: "\<And>k. ordinal b (label b k) = k" by (simp add: regular_def)
  have "hd data = (label b lo, g lo)"
    using assms(2,3) by (simp add: upto_rec1)
  then have pos: "position_date b data = (\<lambda>i. label b (lo + i))"
    by (simp add: position_date_def inv fun_eq_iff)
  have len: "int (length data) = hi - lo + 1"
    using assms(2,3) by simp
  have "map (\<lambda>i. label b (lo + i)) [hi - lo + 1 .. hi - lo + 1 + pp - 1] =
      map (label b) [lo + (hi - lo + 1) .. lo + (hi - lo + 1 + pp - 1)]"
    by (rule map_shift_upto)
  then show "map (position_date b data) [int (length data) .. int (length data) + pp - 1] =
           map (label b) [hi + 1 .. hi + pp]"
    by (simp add: pos len algebra_simps)
  have "last data = (label b hi, g hi)"
    using assms(2,3) by (simp add: upto_rec2)
  then show "ordinal b (fst (last data)) = hi" by (simp add: inv)
qed

text \<open>
  C2, as the code has it. Every one of the six methods, \<open>_hwes_method\<close> and \<open>_ses_method\<close>
  included, asks for the positions \<open>n\<close> to \<open>n + predicted_periods - 1\<close>, where \<open>n\<close> is the
  length of the input. With a library that returns one point per position asked for, a
  result that is not \<open>False\<close> has exactly \<open>predicted_periods\<close> points, at these positions;
  on a resampled table these are the bins that follow the last bin of the table.
\<close>

theorem forecast_covers_requested_positions:
  assumes "statsmodels_ranges b sm" and "getattr m sm self data st = (Value prediction, st')"
  shows "length prediction = nat (predicted_periods self) \<and>
         map fst prediction = map (position_date b data)
           [int (length data) .. int (length data) + predicted_periods self - 1] \<and>
         (\<forall>to_offset moves.
            regular b \<and> to_offset (freq self) = b \<and> moves \<noteq> [] \<and>
            data = moves_table to_offset self moves \<longrightarrow>
            map fst prediction =
              map (\<lambda>j. label b (ordinal b (fst (last data)) + j)) [1 .. predicted_periods self])"
proof -
  note body = getattr_Value [OF assms(2)]
  have len: "length prediction = nat (predicted_periods self)"
    using assms(1) body by (rule try_body_length)
  have range: "map fst prediction = map (position_date b data)
           [int (length data) .. int (length data) + predicted_periods self - 1]"
    using assms(1) body by (rule try_body_range)
  have "map fst prediction =
      map (\<lambda>j. label b (ordinal b (fst (last data)) + j)) [1 .. predicted_periods self]"
    if reg: "regular b" and b: "to_offset (freq self) = b" and ne: "moves \<noteq> []"
      and data: "data = moves_table to_offset self moves" for to_offset and moves :: series
  proof -
    from moves_table_bins [OF ne, of to_offset self] b data obtain lo hi
      where le: "lo \<le> hi" and d: "data = map (\<lambda>j. (label b j, bin_total b moves j)) [lo..hi]"
      by auto
    note pos = table_positions [OF reg le d]
    have "map (\<lambda>j. label b (hi + j)) [1 .. predicted_periods self] =
        map (label b) [hi + 1 .. hi + predicted_periods self]"
      by (rule map_shift_upto)
    with range pos(1) [of "predicted_periods self"] pos(2) show ?thesis by simp
  qed
  with len range show ?thesis by blast
qed

text \<open>
  The claim as stated (exactly one point for \<open>_ses_method\<close>) fails: with
  \<open>predicted_periods = 2\<close> the method returns two points.
\<close>

theorem ses_two_periods_counterexample:
  "statsmodels_ranges pd_day (stand_in pd_day) \<and>
   predicted_periods (request ses_method_name 2) = 2 \<and>
   fst (ses_method (stand_in pd_day) (request ses_method_name 2)
          [(19723, 5), (19724, 0), (19725, 7)] no_effects) =
     Value [(19726, 14), (19727, 21)] \<and>
   length [(19726 :: ts, 14), (19727, 21 :: real)] \<noteq> 1"
  using ses_5_0_7 by (simp add: stand_in_ranges request_def)

theorem forecast_covers_requested_positions_witness:
  "statsmodels_ranges pd_day (stand_in pd_day) \<and>
   getattr arima_method_name (stand_in pd_day) (request arima_method_name 2)
     (moves_table pd_offsets (request arima_method_name 2) [(19723, 5), (19725, 7)]) no_effects =
     (Value [(19726, 14), (19727, 21)], no_effects) \<and>
   length [(19726 :: ts, 14), (19727, 21 :: real)] = nat (predicted_periods (request arima_method_name 2)) \<and>
   map fst [(19726 :: ts, 14), (19727, 21 :: real)] =
     map (\<lambda>j. label pd_day (ordinal pd_day (fst (last (moves_table pd_offsets
       (request arima_method_name 2) [(19723, 5), (19725, 7)]))) + j))
       [1 .. predicted_periods (request arima_method_name 2)]"
proof -
  let ?self = "request arima_method_name 2"
  let ?data = "moves_table pd_offsets ?self [(19723, 5), (19725, 7)]"
  have g: "getattr arima_method_name (stand_in pd_day) ?self ?data no_effects =
     (Value [(19726, 14), (19727, 21)], no_effects)"
    unfolding table_5_0_7
    by (simp add: arima_method_def try_predict_def stand_in_def request_def
        continue_series_def last_step_def position_date_def pd_day_def upto_rec1)
  have b: "pd_offsets (freq ?self) = pd_day"
    by (simp add: freq_def request_def pd_offsets_def)
  have n: "[(19723, 5), (19725, 7)] \<noteq> ([] :: series)" by simp
  note inst = forecast_covers_requested_positions [OF stand_in_ranges g]
  have l: "length [(19726 :: ts, 14), (19727, 21 :: real)] = nat (predicted_periods ?self)"
    by (rule inst [THEN conjunct1])
  have "regular pd_day \<and> pd_offsets (freq ?self) = pd_day \<and>
      [(19723, 5), (19725, 7)] \<noteq> ([] :: series) \<and>
      ?data = moves_table pd_offsets ?self [(19723, 5), (19725, 7)]"
    using regular_pd_day b by simp
  then have m: "map fst [(19726 :: ts, 14), (19727, 21 :: real)] =
     map (\<lambda>j. label pd_day (ordinal pd_day (fst (last ?data)) + j)) [1 .. predicted_periods ?self]"
    by (rule inst [THEN conjunct2, THEN conjunct2, rule_format])
  from stand_in_ranges g l m show ?thesis by (intro conjI)
qed

subsection \<open>The order of the returned records\<close>

lemma regular_sorted_list:
  assumes "regular b" and "sorted_wrt (<) xs"
  shows "sorted_wrt (<) (map (label b) xs)"
proof -
  from assms(1) have mono: "\<And>j k. j < k \<Longrightarrow> label b j < label b k" by (simp add: regular_def)
  from assms(2) have "sorted_wrt (\<lambda>j k. label b j < label b k) xs"
    by (rule sorted_wrt_mono_rel [rotated]) (simp add: mono)
  then show ?thesis by (simp add: sorted_wrt_map)
qed

lemma forecast_moves_dates:
  "sorted_wrt (<) (map fst prediction) \<Longrightarrow>
   map date_datetime (forecast_moves prediction) = map fst prediction"
  by (simp add: forecast_moves_def to_dict_sorted comp_def case_prod_beta)

lemma res_moves_dates:
  "sorted_wrt (<) (map fst table) \<Longrightarrow> map date_datetime (res_moves table) = map fst table"
  by (simp add: res_moves_def to_dict_sorted comp_def case_prod_beta)

lemma calculate_data_chronological:
  assumes "regular (to_offset (freq self))"
    and "statsmodels_ranges (to_offset (freq self)) sm"
    and "moves \<noteq> []"
  shows "\<exists>history forecasts.
           fst (calculate_data to_offset sm self moves st) = Value (history @ forecasts) \<and>
           history = res_moves (moves_table to_offset self moves) \<and> history \<noteq> [] \<and>
           (\<forall>r \<in> set history. forecast r = None) \<and>
           (\<forall>r \<in> set forecasts. forecast r = Some True) \<and>
           sorted_wrt (<) (map date_datetime (history @ forecasts))"
proof -
  let ?b = "to_offset (freq self)" and ?table = "moves_table to_offset self moves"
  from moves_table_bins [OF assms(3), of to_offset self] obtain lo hi
    where le: "lo \<le> hi" and table: "?table = map (\<lambda>j. (label ?b j, bin_total ?b moves j)) [lo..hi]"
    by blast
  have ts: "sorted_wrt (<) (map fst ?table)"
    using assms(1,3) by (rule moves_table_sorted)
  have hd: "map date_datetime (res_moves ?table) = map (label ?b) [lo..hi]"
    using res_moves_dates [OF ts] table by (simp add: comp_def)
  have hne: "res_moves ?table \<noteq> []"
    using assms(3) by (simp add: res_moves_Nil moves_table_Nil)
  have hf: "\<forall>r \<in> set (res_moves ?table). forecast r = None"
    by (simp add: res_moves_forecast)
  show ?thesis
  proof (cases "try_body (forecast_method self) sm self ?table")
    case (Inl er)
    then have "fst (calculate_data to_offset sm self moves st) = Value (res_moves ?table @ [])"
      using assms(3) by (simp add: calculate_data_Cons method_to_call_def getattr_try_body
          try_predict_Inl)
    moreover have "sorted_wrt (<) (map date_datetime (res_moves ?table @ []))"
      using ts res_moves_dates [OF ts] by simp
    ultimately show ?thesis using hne hf by fastforce
  next
    case (Inr prediction)
    then have res: "fst (calculate_data to_offset sm self moves st) =
        Value (res_moves ?table @ forecast_moves prediction)"
      using assms(3) by (simp add: calculate_data_Cons method_to_call_def getattr_try_body
          try_predict_Inr)
    have "map fst prediction = map (position_date ?b ?table)
        [int (length ?table) .. int (length ?table) + predicted_periods self - 1]"
      using assms(2) Inr by (rule try_body_range)
    with table_positions(1) [OF assms(1) le table, of "predicted_periods self"]
    have pd: "map fst prediction = map (label ?b) [hi + 1 .. hi + predicted_periods self]"
      by simp
    have "sorted_wrt (<) (map fst prediction)"
      unfolding pd using assms(1) by (rule regular_sorted_list) simp
    then have fd: "map date_datetime (forecast_moves prediction) =
        map (label ?b) [hi + 1 .. hi + predicted_periods self]"
      using pd by (simp add: forecast_moves_dates)
    have "sorted_wrt (<) ([lo..hi] @ [hi + 1 .. hi + predicted_periods self])"
      by (auto simp: sorted_wrt_append)
    with assms(1) have
      "sorted_wrt (<) (map (label ?b) ([lo..hi] @ [hi + 1 .. hi + predicted_periods self]))"
      by (rule regular_sorted_list)
    then have "sorted_wrt (<) (map date_datetime (res_moves ?table @ forecast_moves prediction))"
      by (simp add: hd fd)
    moreover have "\<forall>r \<in> set (forecast_moves prediction). forecast r = Some True"
      by (simp add: forecast_moves_forecast)
    ultimately show ?thesis using res hne hf by blast
  qed
qed

lemma sorted_reverse_ascending:
  assumes "sorted_wrt (<) (map date_datetime moves)"
  shows "sorted_reverse moves = rev moves"
proof -
  from assms have s: "sorted (map date_datetime moves)" and d: "distinct (map date_datetime moves)"
    by (simp_all add: strict_sorted_iff)
  from d have inj: "inj_on date_datetime (set moves)" and dm: "distinct moves"
    by (simp_all add: distinct_map)
  have "sort_key date_datetime (rev moves) = moves"
  proof (rule map_sorted_distinct_set_unique [where f = date_datetime])
    show "inj_on date_datetime (set (sort_key date_datetime (rev moves)) \<union> set moves)"
      using inj by simp
    show "sorted (map date_datetime (sort_key date_datetime (rev moves)))"
      by (rule sorted_sort_key)
    show "distinct (map date_datetime (sort_key date_datetime (rev moves)))"
      using inj dm by (simp add: distinct_map)
    show "sorted (map date_datetime moves)" by (rule s)
    show "distinct (map date_datetime moves)" by (rule d)
    show "set (sort_key date_datetime (rev moves)) = set moves" by simp
  qed
  then show ?thesis by (simp add: sorted_reverse_def)
qed

lemma export_of_ascending:
  assumes "fst (calculate_data to_offset sm self moves st) = Value records"
    and "records \<noteq> []" and "sorted_wrt (<) (map date_datetime records)"
  shows "fst (action_export_to_xlsx to_offset sm self moves st) =
           act_url (rev (map (\<lambda>move. Row (date_datetime move) (quantity move) (red move)) records))"
  using assms
  by (simp add: action_export_to_xlsx_def case_prod_beta sorted_reverse_ascending rev_map)

text \<open>
  C8. The returned list is the historical records followed by the forecast records, each
  of the latter with \<open>forecast = True\<close>, and the dates of the whole list are strictly
  ascending (for a frequency whose labels grow with the bins and a library that returns
  the points of the positions asked for). The descending order of the spreadsheet is made
  by the export itself, which writes the rows of this list in reverse.
\<close>

theorem records_chronological:
  assumes "regular (to_offset (freq self))"
    and "statsmodels_ranges (to_offset (freq self)) sm"
    and "moves \<noteq> []"
  shows "\<exists>history forecasts.
           fst (calculate_data to_offset sm self moves st) = Value (history @ forecasts) \<and>
           history = res_moves (moves_table to_offset self moves) \<and> history \<noteq> [] \<and>
           (\<forall>r \<in> set history. forecast r = None) \<and>
           (\<forall>r \<in> set forecasts. forecast r = Some True) \<and>
           sorted_wrt (<) (map date_datetime (history @ forecasts)) \<and>
           fst (action_export_to_xlsx to_offset sm self moves st) =
             act_url (rev (map (\<lambda>move. Row (date_datetime move) (quantity move) (red move))
               (history @ forecasts)))"
proof -
  from calculate_data_chronological [of to_offset self sm moves st, OF assms]
  obtain history forecasts
    where res: "fst (calculate_data to_offset sm self moves st) = Value (history @ forecasts)"
      and h: "history = res_moves (moves_table to_offset self moves)" "history \<noteq> []"
        "\<forall>r \<in> set history. forecast r = None"
      and f: "\<forall>r \<in> set forecasts. forecast r = Some True"
      and sorted: "sorted_wrt (<) (map date_datetime (history @ forecasts))"
    by blast
  from h(2) have "history @ forecasts \<noteq> []" by simp
  from export_of_ascending [OF res this sorted] res h f sorted show ?thesis by blast
qed

theorem records_chronological_witness:
  "regular (pd_offsets (freq (request ses_method_name 2))) \<and>
   statsmodels_ranges (pd_offsets (freq (request ses_method_name 2))) (stand_in pd_day) \<and>
   [(19723, 5), (19725, 7)] \<noteq> ([] :: series) \<and>
   (\<exists>history forecasts.
      fst (calculate_data pd_offsets (stand_in pd_day) (request ses_method_name 2)
             [(19723, 5), (19725, 7)] no_effects) = Value (history @ forecasts) \<and>
      history \<noteq> [] \<and>
      (\<forall>r \<in> set history. forecast r = None) \<and>
      (\<forall>r \<in> set forecasts. forecast r = Some True) \<and>
      sorted_wrt (<) (map date_datetime (history @ forecasts)) \<and>
      fst (action_export_to_xlsx pd_offsets (stand_in pd_day) (request ses_method_name 2)
             [(19723, 5), (19725, 7)] no_effects) =
        act_url (rev (map (\<lambda>move. Row (date_datetime move) (quantity move) (red move))
          (history @ forecasts)))) \<and>
   map date_datetime (the_moves (fst (calculate_data pd_offsets (stand_in pd_day)
     (request ses_method_name 2) [(19723, 5), (19725, 7)] no_effects))) =
     [19723, 19724, 19725, 19726, 19727]"
proof -
  have b: "pd_offsets (freq (request ses_method_name 2)) = pd_day"
    by (simp add: freq_def request_def pd_offsets_def)
  have r: "regular (pd_offsets (freq (request ses_method_name 2)))"
    by (simp add: b regular_pd_day)
  have c: "statsmodels_ranges (pd_offsets (freq (request ses_method_name 2))) (stand_in pd_day)"
    by (simp add: b stand_in_ranges)
  have n: "[(19723, 5), (19725, 7)] \<noteq> ([] :: series)" by simp
  have d: "map date_datetime (the_moves (fst (calculate_data pd_offsets (stand_in pd_day)
     (request ses_method_name 2) [(19723, 5), (19725, 7)] no_effects))) =
     [19723, 19724, 19725, 19726, 19727]"
    unfolding run_ses_2 by simp
  from records_chronological [of pd_offsets "request ses_method_name 2" "stand_in pd_day"
      "[(19723, 5), (19725, 7)]" no_effects, OF r c n] r c n d
  show ?thesis by blast
qed

end
